theory Spec2Isabelle
  imports Complex_Main "HOL-Library.Log_Nat"
begin

section \<open>JavaScript numbers\<close>

text \<open>
  The page computes with JavaScript numbers: IEEE 754 binary64, every arithmetic result
  rounded to the nearest representable value, ties to the even significand. A finite
  number is modelled by the rational it denotes; \<open>fl\<close> rounds a rational to 53
  significant bits. The exponent is not bounded below or above: the quantities of this
  page (byte sizes below \<open>2 ^ 53\<close>, their quotients and percentages) stay far inside
  the normal range, where this is exactly what the hardware does. The sign of zero is
  not modelled.
\<close>

definition pow2 :: "int \<Rightarrow> rat" where
  "pow2 e = (if 0 \<le> e then 2 ^ nat e else 1 / 2 ^ nat (- e))"

text \<open>The binary exponent of a positive rational: \<open>pow2 (ilog2 x) \<le> x < pow2 (ilog2 x + 1)\<close>.\<close>

definition ilog2 :: "rat \<Rightarrow> int" where
  "ilog2 x = (if 1 \<le> x then bitlen \<lfloor>x\<rfloor> - 1 else - bitlen (\<lceil>1 / x\<rceil> - 1))"

text \<open>Round to the nearest integer, a tie to the even one.\<close>

definition rne :: "rat \<Rightarrow> int" where
  "rne y = (let f = \<lfloor>y\<rfloor>; d = y - of_int f in
            if d < 1 / 2 then f else if 1 / 2 < d then f + 1
            else if even f then f else f + 1)"

definition fl :: "rat \<Rightarrow> rat" where
  "fl x = (if x = 0 then 0
           else let e = ilog2 \<bar>x\<bar> - 52 in of_int (rne (x / pow2 e)) * pow2 e)"

datatype jsnum = Num rat | PInf | NInf | NaN

fun js_div :: "jsnum \<Rightarrow> jsnum \<Rightarrow> jsnum" where
  "js_div (Num a) (Num b) =
     (if b = 0 then (if a = 0 then NaN else if 0 < a then PInf else NInf)
      else Num (fl (a / b)))"
| "js_div NaN _ = NaN"
| "js_div _ NaN = NaN"
| "js_div (Num a) _ = Num 0"
| "js_div PInf (Num b) = (if 0 \<le> b then PInf else NInf)"
| "js_div NInf (Num b) = (if 0 \<le> b then NInf else PInf)"
| "js_div _ _ = NaN"

fun js_mul :: "jsnum \<Rightarrow> jsnum \<Rightarrow> jsnum" where
  "js_mul (Num a) (Num b) = Num (fl (a * b))"
| "js_mul NaN _ = NaN"
| "js_mul _ NaN = NaN"
| "js_mul PInf (Num b) = (if b = 0 then NaN else if 0 < b then PInf else NInf)"
| "js_mul NInf (Num b) = (if b = 0 then NaN else if 0 < b then NInf else PInf)"
| "js_mul (Num a) PInf = (if a = 0 then NaN else if 0 < a then PInf else NInf)"
| "js_mul (Num a) NInf = (if a = 0 then NaN else if 0 < a then NInf else PInf)"
| "js_mul PInf PInf = PInf"
| "js_mul NInf NInf = PInf"
| "js_mul PInf NInf = NInf"
| "js_mul NInf PInf = NInf"

fun js_sub :: "jsnum \<Rightarrow> jsnum \<Rightarrow> jsnum" where
  "js_sub (Num a) (Num b) = Num (fl (a - b))"
| "js_sub NaN _ = NaN"
| "js_sub _ NaN = NaN"
| "js_sub (Num a) PInf = NInf"
| "js_sub (Num a) NInf = PInf"
| "js_sub PInf PInf = NaN"
| "js_sub NInf NInf = NaN"
| "js_sub PInf _ = PInf"
| "js_sub NInf _ = NInf"

subsection \<open>\<open>Number.prototype.toFixed(1)\<close>\<close>

text \<open>The decimal digits of a natural number.\<close>

definition digit :: "nat \<Rightarrow> char" where
  "digit d = ''0123456789'' ! d"

function show_nat :: "nat \<Rightarrow> string" where
  "show_nat n = (if n < 10 then [digit n] else show_nat (n div 10) @ [digit (n mod 10)])"
  by pat_completeness auto
termination
  by (relation "measure (\<lambda>n. n)") auto

declare show_nat.simps [simp del]

text \<open>
  For a finite \<open>x\<close>, \<open>toFixed(1)\<close> takes the sign off, picks the integer \<open>n\<close> with
  \<open>n / 10\<close> nearest to the exact value of \<open>\<bar>x\<bar>\<close> (the larger \<open>n\<close> when two are
  equally near) and prints it with one digit after the point. \<open>fixed1\<close> is the sign and
  that \<open>n\<close>; \<open>tenths\<close> reads the pair back as a number of tenths. (From \<open>10 ^ 21\<close> on
  JavaScript prints in exponent notation instead; sizes below \<open>2 ^ 53\<close> give
  percentages below \<open>10 ^ 18\<close>.)
\<close>

definition fixed1 :: "rat \<Rightarrow> bool \<times> nat" where
  "fixed1 x = (x < 0, nat \<lfloor>\<bar>x\<bar> * 10 + 1 / 2\<rfloor>)"

definition tenths :: "bool \<times> nat \<Rightarrow> int" where
  "tenths d = (if fst d then - int (snd d) else int (snd d))"

definition show_fixed1 :: "bool \<times> nat \<Rightarrow> string" where
  "show_fixed1 d =
     (if fst d then ''-'' else '''') @ show_nat (snd d div 10) @ ''.'' @ show_nat (snd d mod 10)"

fun toFixed1 :: "jsnum \<Rightarrow> string" where
  "toFixed1 (Num x) = show_fixed1 (fixed1 x)"
| "toFixed1 PInf = ''Infinity''"
| "toFixed1 NInf = ''-Infinity''"
| "toFixed1 NaN = ''NaN''"

section \<open>Files and blobs\<close>

record File =
  file_name :: string
  file_size :: nat
  file_type :: string

text \<open>
  A blob as the page reads it: the \<open>name\<close> property (absent on a plain blob), the
  \<open>size\<close> and \<open>type\<close> properties, and the number of bytes of its content. The
  bytes themselves are arbitrary (the stand-in draws them from \<open>Math.random\<close>) and no
  code of the page reads them.
\<close>

record Blob =
  blob_name :: "string option"
  blob_size :: nat
  blob_type :: string
  blob_length :: nat

section \<open>The output file name\<close>

text \<open>\<open>String.prototype.split\<close> on a one-character separator, and \<open>Array.prototype.join\<close>.\<close>

fun split :: "char \<Rightarrow> string \<Rightarrow> string list" where
  "split c [] = [[]]"
| "split c (x # xs) =
     (if x = c then [] # split c xs
      else (case split c xs of [] \<Rightarrow> [[x]] | s # ss \<Rightarrow> (x # s) # ss))"

fun join :: "string \<Rightarrow> string list \<Rightarrow> string" where
  "join sep [] = []"
| "join sep [s] = s"
| "join sep (s # ss) = s @ sep @ join sep ss"

text \<open>
  \<open>pop\<close> removes and returns the last element; on an empty array it returns
  \<open>undefined\<close>, which a template literal prints as the word.
\<close>

definition pop :: "string list \<Rightarrow> string \<times> string list" where
  "pop parts = (if parts = [] then (''undefined'', []) else (last parts, butlast parts))"

text \<open>The naming code of the stand-in (lines 42 to 45).\<close>

definition newFileName :: "string \<Rightarrow> string" where
  "newFileName name =
     (let originalFileNameParts = split CHR ''.'' name;
          (extension, originalFileNameParts) = pop originalFileNameParts;
          baseName = join ''.'' originalFileNameParts
      in baseName @ ''_ai.'' @ extension)"

section \<open>The stand-in compressor\<close>

text \<open>
  The options object: \<open>quality\<close> (absent or a finite number) and whether the
  \<open>progress\<close> and \<open>success\<close> callbacks are supplied. The \<open>error\<close> callback is called
  without a check.
\<close>

record options =
  quality :: "rat option"
  progress :: bool
  success :: bool

datatype outcome = Succeeded Blob | Failed string

text \<open>
  The constructor of class \<open>Compressor\<close>. Its argument is \<open>None\<close> when it is not a
  \<open>File\<close>. The result is the callback it ends up calling, after the two timers;
  \<open>None\<close> when the file is compressed and no \<open>success\<close> callback was supplied.
\<close>

definition simulatedCompressedSize :: "nat \<Rightarrow> rat \<Rightarrow> nat" where
  "simulatedCompressedSize originalSize q =
     nat (max 1024 \<lfloor>fl (fl (of_nat originalSize * q) * (1 / 2))\<rfloor>)"

definition Compressor :: "File option \<Rightarrow> options \<Rightarrow> outcome option" where
  "Compressor arg opts =
     (case arg of
        None \<Rightarrow> Some (Failed ''Invalid file type provided to Compressor. (Simulated error)'')
      | Some file \<Rightarrow>
          (let originalSize = file_size file;
               q = (case quality opts of Some q \<Rightarrow> q | None \<Rightarrow> fl (8 / 10));
               n = simulatedCompressedSize originalSize q;
               compressedBlob = \<lparr>blob_name = Some (newFileName (file_name file)),
                                 blob_size = n, blob_type = file_type file, blob_length = n\<rparr>
           in if success opts then Some (Succeeded compressedBlob) else None))"

section \<open>The page\<close>

text \<open>
  One entry of \<open>compressedHistory\<close>. \<open>item_id\<close> is the \<open>id\<close> field, the reading
  of \<open>Date.now()\<close> when the entry was made.
\<close>

record history_item =
  item_id :: nat
  originalFileName :: string
  originalSize :: nat
  compressedFileName :: string
  compressedSize :: nat
  compressedBlob :: Blob

text \<open>
  The state of \<open>ImageCompressorApp\<close>: its \<open>useState\<close> cells, and the two pieces of
  the browser its handlers write to: the number of pending three-second timers that
  will hide the toast, and the object URLs created and not yet revoked. A toast is its
  message and its type (\<open>success\<close>, \<open>error\<close> or \<open>info\<close>).
\<close>

record page =
  selectedFile :: "File option"
  previewUrl :: string
  compressionLevel :: nat
  isCompressing :: bool
  isRealCompressorLoaded :: bool
  toast :: "(string \<times> string) option"
  compressedHistory :: "history_item list"
  toast_timers :: nat
  object_urls :: "string list"

definition initial_page :: page where
  "initial_page =
     \<lparr>selectedFile = None, previewUrl = '''', compressionLevel = 70, isCompressing = False,
      isRealCompressorLoaded = False, toast = None, compressedHistory = [],
      toast_timers = 0, object_urls = []\<rparr>"

definition showToast :: "string \<Rightarrow> string \<Rightarrow> page \<Rightarrow> page" where
  "showToast message type s = s\<lparr>toast := Some (message, type), toast_timers := toast_timers s + 1\<rparr>"

text \<open>One of the timers set by \<open>showToast\<close> fires and hides whatever toast is shown.\<close>

definition toast_timeout :: "page \<Rightarrow> page" where
  "toast_timeout s = s\<lparr>toast := None, toast_timers := toast_timers s - 1\<rparr>"

text \<open>\<open>if (previewUrl) URL.revokeObjectURL(previewUrl)\<close>: the empty string is falsy.\<close>

definition revokePreview :: "string \<Rightarrow> page \<Rightarrow> page" where
  "revokePreview url s =
     (if url \<noteq> '''' then s\<lparr>object_urls := filter (\<lambda>u. u \<noteq> url) (object_urls s)\<rparr> else s)"

subsection \<open>Upload\<close>

text \<open>The event target: the chosen files and the \<open>value\<close> of the input control.\<close>

record target =
  files :: "File list"
  target_value :: string

definition validTypes :: "string list" where
  "validTypes = [''image/jpeg'', ''image/png'', ''image/gif'', ''image/webp'', ''image/jpg'']"

text \<open>
  \<open>handleFileChange\<close>. \<open>url\<close> is the object URL that \<open>URL.createObjectURL\<close> hands
  out if it is called. The state setters of one handler are applied together when it
  returns: each field ends with the last value set, and \<open>previewUrl\<close> read inside the
  handler is the value from before the event.
\<close>

definition handleFileChange :: "target \<Rightarrow> string \<Rightarrow> page \<Rightarrow> page \<times> target" where
  "handleFileChange e url s =
     (let s1 = showToast ''Processing file...'' ''info'' s;
          s2 = s1\<lparr>selectedFile := None, compressedHistory := []\<rparr>;
          s3 = revokePreview (previewUrl s) s2;
          s4 = s3\<lparr>previewUrl := '''', compressionLevel := 70, toast := None\<rparr>
      in case files e of
           [] \<Rightarrow> (showToast ''No file selected.'' ''error'' s4, e)
         | file # _ \<Rightarrow>
             if file_type file \<notin> set validTypes then
               (showToast
                  ''Unsupported file type. Please upload JPG, JPEG, PNG, GIF, or WEBP images.''
                  ''error'' s4,
                e\<lparr>target_value := ''''\<rparr>)
             else if file_size file > 20 * 1024 * 1024 then
               (showToast ''File size should be less than 20MB.'' ''error'' s4,
                e\<lparr>target_value := ''''\<rparr>)
             else
               (showToast ''Image uploaded successfully!'' ''success''
                  (s4\<lparr>selectedFile := Some file, previewUrl := url,
                       object_urls := url # object_urls s4\<rparr>),
                e\<lparr>target_value := ''''\<rparr>))"

text \<open>\<open>handleDrop\<close> passes the first dropped file in a made-up event, when there is one.\<close>

definition handleDrop :: "File list \<Rightarrow> string \<Rightarrow> page \<Rightarrow> page" where
  "handleDrop dropped url s =
     (case dropped of
        [] \<Rightarrow> s
      | file # _ \<Rightarrow> fst (handleFileChange \<lparr>files = [file], target_value = ''''\<rparr> url s))"

subsection \<open>Compression\<close>

text \<open>
  What a click on the button hands to the compressor: which class is constructed
  (\<open>window.Compressor\<close> or the stand-in), the file and the options. The callbacks in
  the options close over \<open>selectedFile\<close> and \<open>previewUrl\<close> as they were at the click;
  \<open>request_previewUrl\<close> keeps the second (the first is the file).
\<close>

record request =
  request_real :: bool
  request_file :: File
  request_options :: options
  request_previewUrl :: string

definition handleCompress :: "page \<Rightarrow> page \<times> request option" where
  "handleCompress s =
     (case selectedFile s of
        None \<Rightarrow> (showToast ''Please upload an image to compress.'' ''error'' s, None)
      | Some file \<Rightarrow>
          (let s1 = showToast ''Compressing image...'' ''info'' s;
               s2 = s1\<lparr>isCompressing := True, toast := None\<rparr>
           in (s2, Some \<lparr>request_real = isRealCompressorLoaded s, request_file = file,
                         request_options =
                           \<lparr>quality = Some (fl (of_nat (compressionLevel s) / 100)),
                            progress = True, success = True\<rparr>,
                         request_previewUrl = previewUrl s\<rparr>)))"

text \<open>The number in the success toast: \<open>100 - (result.size / selectedFile.size) * 100\<close>.\<close>

definition saved_percent :: "nat \<Rightarrow> nat \<Rightarrow> jsnum" where
  "saved_percent result_size selected_size =
     js_sub (Num 100)
       (js_mul (js_div (Num (of_nat result_size)) (Num (of_nat selected_size))) (Num 100))"

text \<open>
  The \<open>success\<close> callback. \<open>result.name || ...\<close> takes the fallback when the name is
  absent or empty. \<open>new Blob([result], ...)\<close> copies the content of the result, so the
  new blob's size is the length of that content. \<open>now\<close> is the reading of \<open>Date.now()\<close>.
\<close>

definition fileNameToUse :: "Blob \<Rightarrow> File \<Rightarrow> string" where
  "fileNameToUse result selected =
     (let fallback =
            (let originalFileNameParts = split CHR ''.'' (file_name selected);
                 (extension, originalFileNameParts) = pop originalFileNameParts;
                 baseName = join ''.'' originalFileNameParts
             in baseName @ ''_ai.'' @ extension)
      in case blob_name result of
           None \<Rightarrow> fallback
         | Some n \<Rightarrow> if n = '''' then fallback else n)"

definition on_success :: "request \<Rightarrow> nat \<Rightarrow> Blob \<Rightarrow> page \<Rightarrow> page" where
  "on_success r now result s =
     (let selected = request_file r;
          name = fileNameToUse result selected;
          fileToDownload = \<lparr>blob_name = Some name, blob_size = blob_length result,
                            blob_type = blob_type result, blob_length = blob_length result\<rparr>;
          s1 = s\<lparr>compressedHistory :=
                   \<lparr>item_id = now, originalFileName = file_name selected,
                    originalSize = file_size selected, compressedFileName = name,
                    compressedSize = blob_size result, compressedBlob = fileToDownload\<rparr>
                   # compressedHistory s\<rparr>;
          s2 = s1\<lparr>isCompressing := False\<rparr>;
          s3 = showToast
                 (''Image compressed successfully! Saved ''
                    @ toFixed1 (saved_percent (blob_size result) (file_size selected)) @ ''%'')
                 ''success'' s2;
          s4 = s3\<lparr>selectedFile := None\<rparr>;
          s5 = revokePreview (request_previewUrl r) s4
      in s5\<lparr>previewUrl := '''', compressionLevel := 70\<rparr>)"

text \<open>The \<open>error\<close> callback; \<open>message\<close> is \<open>err.message\<close>.\<close>

definition on_error :: "string \<Rightarrow> page \<Rightarrow> page" where
  "on_error message s =
     (showToast (''Compression failed: '' @ message @ ''. Please try again.'') ''error'' s)
       \<lparr>isCompressing := False\<rparr>"

text \<open>The callback that an outcome of the compressor runs.\<close>

fun complete :: "request \<Rightarrow> nat \<Rightarrow> outcome \<Rightarrow> page \<Rightarrow> page" where
  "complete r now (Succeeded result) s = on_success r now result s"
| "complete r now (Failed message) s = on_error message s"

subsection \<open>History\<close>

definition clearHistory :: "page \<Rightarrow> page" where
  "clearHistory s = showToast ''Compression history cleared!'' ''info'' (s\<lparr>compressedHistory := []\<rparr>)"

text \<open>
  The reduction line of a history card:
  \<open>((1 - (item.compressedSize / item.originalSize)) * 100).toFixed(1)\<close>.
\<close>

definition reduction_percent :: "history_item \<Rightarrow> jsnum" where
  "reduction_percent item =
     js_mul
       (js_sub (Num 1)
          (js_div (Num (of_nat (compressedSize item))) (Num (of_nat (originalSize item)))))
       (Num 100)"

definition reduction_line :: "history_item \<Rightarrow> string" where
  "reduction_line item = ''Reduction: '' @ toFixed1 (reduction_percent item) @ ''%''"

subsection \<open>Events\<close>

text \<open>
  Everything that changes the page's history, selection or busy flag, as one event
  type: a file chosen or dropped, the slider moved, the button clicked, a compressor
  calling back (with the request whose callbacks it holds), the history cleared, a toast
  timer firing, and the check for \<open>window.Compressor\<close> after mounting.
\<close>

datatype event =
    FileChange target string
  | Drop "File list" string
  | SetLevel nat
  | Compress
  | Complete request nat outcome
  | ClearHistory
  | ToastTimeout
  | CheckCompressor bool

fun step :: "event \<Rightarrow> page \<Rightarrow> page" where
  "step (FileChange e url) s = fst (handleFileChange e url s)"
| "step (Drop dropped url) s = handleDrop dropped url s"
| "step (SetLevel n) s = s\<lparr>compressionLevel := n\<rparr>"
| "step Compress s = fst (handleCompress s)"
| "step (Complete r now out) s = complete r now out s"
| "step ClearHistory s = clearHistory s"
| "step ToastTimeout s = toast_timeout s"
| "step (CheckCompressor b) s = s\<lparr>isRealCompressorLoaded := b\<rparr>"

definition run :: "event list \<Rightarrow> page \<Rightarrow> page" where
  "run evs s = fold step evs s"

fun replaces_history :: "event \<Rightarrow> bool" where
  "replaces_history (FileChange e url) = True"
| "replaces_history (Drop dropped url) = True"
| "replaces_history ClearHistory = True"
| "replaces_history _ = False"

text \<open>The entry that a successful completion puts into the history.\<close>

definition history_entry :: "request \<Rightarrow> nat \<Rightarrow> Blob \<Rightarrow> history_item" where
  "history_entry r now result =
     \<lparr>item_id = now, originalFileName = file_name (request_file r),
      originalSize = file_size (request_file r),
      compressedFileName = fileNameToUse result (request_file r),
      compressedSize = blob_size result,
      compressedBlob = \<lparr>blob_name = Some (fileNameToUse result (request_file r)),
                        blob_size = blob_length result, blob_type = blob_type result,
                        blob_length = blob_length result\<rparr>\<rparr>"

fun successes :: "event list \<Rightarrow> history_item list" where
  "successes [] = []"
| "successes (Complete r now (Succeeded result) # evs) = history_entry r now result # successes evs"
| "successes (_ # evs) = successes evs"

section \<open>Sharing\<close>

text \<open>
  \<open>navigator\<close> as the handler sees it: \<open>share\<close> and \<open>canShare\<close> are each a function
  or absent. \<open>share\<close> settles with success or with an error of some name and message.
\<close>

record share_data =
  share_files :: "File list"
  share_title :: string
  share_text :: string

datatype share_result = Resolved | Rejected string string

record navigator =
  share :: "(share_data \<Rightarrow> share_result) option"
  canShare :: "(File list \<Rightarrow> bool) option"

datatype thrown = TypeError string

definition unsupported_notice :: string where
  "unsupported_notice =
     ''Your browser does not support sharing files directly. Please download and share manually.''"

text \<open>
  \<open>handleShare\<close>. The test \<open>navigator.share && navigator.canShare(...)\<close> stands outside
  the \<open>try\<close>: calling an absent \<open>canShare\<close> throws, the handler's promise is rejected
  and no toast is shown.
\<close>

definition handleShare :: "navigator \<Rightarrow> Blob option \<Rightarrow> string \<Rightarrow> page \<Rightarrow> thrown + page" where
  "handleShare nav fileBlob fileName s =
     (case fileBlob of
        None \<Rightarrow> Inr (showToast ''No compressed file to share.'' ''error'' s)
      | Some b \<Rightarrow>
          (let shareFile = \<lparr>file_name = fileName, file_size = blob_length b,
                           file_type = blob_type b\<rparr>
           in case share nav of
                None \<Rightarrow> Inr (showToast unsupported_notice ''info'' s)
              | Some sh \<Rightarrow>
                  (case canShare nav of
                     None \<Rightarrow> Inl (TypeError ''navigator.canShare is not a function'')
                   | Some can \<Rightarrow>
                       if can [shareFile] then
                         (case sh \<lparr>share_files = [shareFile],
                                   share_title = ''Compressed Image - '' @ fileName,
                                   share_text =
                                     ''Check out this image I compressed using ImageCompressor.ai!''\<rparr> of
                            Resolved \<Rightarrow> Inr (showToast ''Image shared successfully!'' ''success'' s)
                          | Rejected name message \<Rightarrow>
                              if name = ''AbortError'' then
                                Inr (showToast ''Sharing cancelled.'' ''info'' s)
                              else
                                Inr (showToast (''Failed to share image: '' @ message) ''error'' s))
                       else Inr (showToast unsupported_notice ''info'' s))))"

section \<open>The progress timer of the stand-in\<close>

text \<open>
  The interval callback of the stand-in (lines 18 to 25) calls
  \<open>options.progress(percentage)\<close>. Evaluating the argument resolves the identifier
  \<open>percentage\<close> through the scopes around the call: the callback itself binds nothing;
  the timeout callback binds \<open>progress\<close> and \<open>progressInterval\<close>; the constructor
  binds \<open>file\<close> and \<open>options\<close>; the module binds its imports and its four
  declarations; last comes the global object, which the page does not write to and which
  is a parameter here. An identifier found nowhere throws a \<open>ReferenceError\<close>. (The
  callback that the page passes in has a parameter called \<open>percentage\<close>; a parameter
  is bound inside its own function only, not where the function is called.)
\<close>

datatype val = Number rat | Object string

definition local_names :: "string list" where
  "local_names = [''progress'', ''progressInterval'']"

definition constructor_names :: "string list" where
  "constructor_names = [''file'', ''options'']"

definition module_names :: "string list" where
  "module_names =
     [''React'', ''useState'', ''useRef'', ''useEffect'', ''useCallback'',
      ''Compressor'', ''Toast'', ''PrivacyPolicyModal'', ''ImageCompressorApp'']"

definition resolve :: "(string \<Rightarrow> val option) \<Rightarrow> nat \<Rightarrow> string \<Rightarrow> val option" where
  "resolve globals counter x =
     (if x = ''progress'' then Some (Number (of_nat counter))
      else if x \<in> set local_names \<or> x \<in> set constructor_names \<or> x \<in> set module_names
        then Some (Object x)
      else globals x)"

datatype tick = Reported val | ReferenceError string | Cleared

text \<open>
  One run of the interval callback: the new counter and what the run did. An exception
  leaves the interval running; only \<open>clearInterval\<close> stops it.
\<close>

definition interval_tick :: "(string \<Rightarrow> val option) \<Rightarrow> options \<Rightarrow> nat \<Rightarrow> nat \<times> tick" where
  "interval_tick globals opts counter =
     (let counter = counter + 10
      in if progress opts \<and> counter \<le> 100 then
           (case resolve globals counter ''percentage'' of
              None \<Rightarrow> (counter, ReferenceError ''percentage'')
            | Some v \<Rightarrow> (counter, Reported v))
         else (counter, Cleared))"

text \<open>
  The runs of the callback while the 500 ms timer has not fired: at most \<open>n\<close> of
  them (how many the browser fits in is not fixed), fewer when the interval clears
  itself. Each run is listed with the counter it had.
\<close>

fun ticks :: "(string \<Rightarrow> val option) \<Rightarrow> options \<Rightarrow> nat \<Rightarrow> nat \<Rightarrow> (nat \<times> tick) list" where
  "ticks globals opts 0 counter = []"
| "ticks globals opts (Suc n) counter =
     (let (counter, t) = interval_tick globals opts counter
      in if t = Cleared then [(counter, t)] else (counter, t) # ticks globals opts n counter)"

section \<open>The percentage of the specification\<close>

text \<open>
  The quantity of the specification, \<open>100 * (1 - compressedSize / originalSize)\<close>, as
  an exact rational; its rounding to one decimal, counted in tenths; and the case where
  the rounding is not determined by nearness, the quantity lying exactly halfway between
  two neighbouring tenths.
\<close>

definition exact_percent :: "nat \<Rightarrow> nat \<Rightarrow> rat" where
  "exact_percent compressed original = 100 * (1 - of_nat compressed / of_nat original)"

definition nearest_tenth :: "rat \<Rightarrow> int" where
  "nearest_tenth p = \<lfloor>p * 10 + 1 / 2\<rfloor>"

definition halfway :: "rat \<Rightarrow> bool" where
  "halfway p = (of_int \<lfloor>p * 10 + 1 / 2\<rfloor> = p * 10 + 1 / 2)"

section \<open>Example values\<close>

text \<open>Concrete files, results, requests and pages for the examples further down.\<close>

definition cat :: File where
  "cat = \<lparr>file_name = ''cat.jpg'', file_size = 2000000, file_type = ''image/jpeg''\<rparr>"

definition cat_request :: request where
  "cat_request =
     \<lparr>request_real = False, request_file = cat,
      request_options = \<lparr>quality = Some (fl (70 / 100)), progress = True, success = True\<rparr>,
      request_previewUrl = ''blob:cat''\<rparr>"

definition cat_result :: Blob where
  "cat_result =
     \<lparr>blob_name = Some ''cat_ai.jpg'', blob_size = 700000, blob_type = ''image/jpeg'',
      blob_length = 700000\<rparr>"

text \<open>A page with a selection, a preview, a moved slider and one entry in the history.\<close>

definition used_page :: page where
  "used_page =
     \<lparr>selectedFile = Some cat, previewUrl = ''blob:cat'', compressionLevel = 40,
      isCompressing = False, isRealCompressorLoaded = False, toast = None,
      compressedHistory = [history_entry cat_request 1 cat_result],
      toast_timers = 0, object_urls = [''blob:cat'']\<rparr>"

definition big_png :: File where
  "big_png = \<lparr>file_name = ''big.png'', file_size = 25 * 1024 * 1024, file_type = ''image/png''\<rparr>"

text \<open>
  Two pages that runs reach from the initial page, and two picks of the file input.
  On \<open>selected_page\<close> the user has chosen \<open>cat\<close> and moved the slider to 40; on
  \<open>compressed_page\<close> the user has chosen \<open>cat\<close>, clicked the button, and the stand-in
  has handed back \<open>cat_result\<close>.
\<close>

definition pick_cat :: target where
  "pick_cat = \<lparr>files = [cat], target_value = ''cat.jpg''\<rparr>"

definition pick_big :: target where
  "pick_big = \<lparr>files = [big_png], target_value = ''big.png''\<rparr>"

definition selected_page :: page where
  "selected_page = run [FileChange pick_cat ''blob:cat'', SetLevel 40] initial_page"

definition compressed_page :: page where
  "compressed_page =
     run [FileChange pick_cat ''blob:cat'', Compress,
          Complete cat_request 1 (Succeeded cat_result)]
       initial_page"

definition readme :: File where
  "readme = \<lparr>file_name = ''README'', file_size = 2000000, file_type = ''image/png''\<rparr>"

definition unnamed_result :: Blob where
  "unnamed_result =
     \<lparr>blob_name = None, blob_size = 700000, blob_type = ''image/png'', blob_length = 700000\<rparr>"

definition no_globals :: "string \<Rightarrow> val option" where
  "no_globals x = None"

text \<open>A browser that has \<open>navigator.share\<close> and no \<open>navigator.canShare\<close>.\<close>

definition share_resolves :: "share_data \<Rightarrow> share_result" where
  "share_resolves d = Resolved"

definition share_only :: navigator where
  "share_only = \<lparr>share = Some share_resolves, canShare = None\<rparr>"

definition dot_png :: File where
  "dot_png = \<lparr>file_name = ''dot.png'', file_size = 500, file_type = ''image/png''\<rparr>"

definition wide :: File where
  "wide = \<lparr>file_name = ''wide.webp'', file_size = 204800, file_type = ''image/webp''\<rparr>"

definition wide_page :: page where
  "wide_page = initial_page\<lparr>selectedFile := Some wide, previewUrl := ''blob:wide'',
                            compressionLevel := 57, object_urls := [''blob:wide'']\<rparr>"

text \<open>The real compressor hands back 725,000 bytes for the 2,000,000-byte file.\<close>

definition cdn_request :: request where
  "cdn_request = cat_request\<lparr>request_real := True\<rparr>"

definition cdn_result :: Blob where
  "cdn_result =
     \<lparr>blob_name = Some ''cat.jpg'', blob_size = 725000, blob_type = ''image/jpeg'',
      blob_length = 725000\<rparr>"

section \<open>Basic facts about the handlers\<close>

lemma toast_showToast: "toast (showToast m t s) = Some (m, t)"
  by (simp add: showToast_def)

lemma showToast_fields:
  "selectedFile (showToast m t s) = selectedFile s"
  "previewUrl (showToast m t s) = previewUrl s"
  "compressionLevel (showToast m t s) = compressionLevel s"
  "isCompressing (showToast m t s) = isCompressing s"
  "isRealCompressorLoaded (showToast m t s) = isRealCompressorLoaded s"
  "compressedHistory (showToast m t s) = compressedHistory s"
  "object_urls (showToast m t s) = object_urls s"
  "toast_timers (showToast m t s) = Suc (toast_timers s)"
  by (simp_all add: showToast_def)

lemma revokePreview_fields:
  "selectedFile (revokePreview u s) = selectedFile s"
  "previewUrl (revokePreview u s) = previewUrl s"
  "compressionLevel (revokePreview u s) = compressionLevel s"
  "isCompressing (revokePreview u s) = isCompressing s"
  "isRealCompressorLoaded (revokePreview u s) = isRealCompressorLoaded s"
  "compressedHistory (revokePreview u s) = compressedHistory s"
  "toast (revokePreview u s) = toast s"
  "toast_timers (revokePreview u s) = toast_timers s"
  by (simp_all add: revokePreview_def)

lemma history_on_success:
  "compressedHistory (on_success r now result s) = history_entry r now result # compressedHistory s"
  by (simp add: on_success_def history_entry_def Let_def showToast_fields revokePreview_fields)

lemma history_on_error: "compressedHistory (on_error m s) = compressedHistory s"
  by (simp add: on_error_def showToast_fields)

lemma history_handleCompress: "compressedHistory (fst (handleCompress s)) = compressedHistory s"
  by (simp add: handleCompress_def Let_def showToast_fields split: option.split)

lemma history_step:
  "\<not> replaces_history ev \<Longrightarrow>
   compressedHistory (step ev s) = successes [ev] @ compressedHistory s"
proof (cases ev)
  case (Complete r now out)
  then show ?thesis
    by (cases out) (simp_all add: history_on_success history_on_error)
qed (simp_all add: history_handleCompress toast_timeout_def)

lemma successes_append: "successes (evs @ evs') = successes evs @ successes evs'"
  by (induction evs rule: successes.induct) simp_all

lemma rev_successes_single: "rev (successes [ev]) = successes [ev]"
  by (cases "[ev]" rule: successes.cases) simp_all

lemma history_run:
  "\<forall>ev \<in> set evs. \<not> replaces_history ev \<Longrightarrow>
   compressedHistory (run evs s) = rev (successes evs) @ compressedHistory s"
proof (induction evs arbitrary: s)
  case Nil
  show ?case by (simp add: run_def)
next
  case (Cons ev evs)
  have "compressedHistory (run (ev # evs) s) = compressedHistory (run evs (step ev s))"
    by (simp add: run_def)
  also have "\<dots> = rev (successes evs) @ compressedHistory (step ev s)"
    using Cons by simp
  also have "\<dots> = rev (successes evs) @ successes [ev] @ compressedHistory s"
    using Cons.prems by (simp add: history_step)
  also have "\<dots> = rev (successes (ev # evs)) @ compressedHistory s"
    using successes_append[of "[ev]" evs] by (simp add: rev_successes_single)
  finally show ?case .
qed

section \<open>The upload contract\<close>

lemma selected_page_fields:
  "selectedFile selected_page = Some cat" "previewUrl selected_page = ''blob:cat''"
  "compressionLevel selected_page = 40" "compressedHistory selected_page = []"
  by (simp_all add: selected_page_def pick_cat_def run_def handleFileChange_def Let_def
      showToast_def revokePreview_def initial_page_def cat_def validTypes_def)

text \<open>The click on \<open>selected_page\<close>'s predecessor hands out exactly \<open>cat_request\<close>.\<close>

lemma compressed_page_request:
  "snd (handleCompress (step (FileChange pick_cat ''blob:cat'') initial_page)) = Some cat_request"
  by (simp add: pick_cat_def handleCompress_def handleFileChange_def Let_def showToast_def
      revokePreview_def initial_page_def cat_def validTypes_def cat_request_def)

lemma compressed_page_fields:
  "selectedFile compressed_page = None" "previewUrl compressed_page = ''''"
  "compressionLevel compressed_page = 70"
  by (simp_all add: compressed_page_def run_def on_success_def Let_def showToast_def
      revokePreview_def)

lemma compressed_page_history:
  "compressedHistory compressed_page = [history_entry cat_request 1 cat_result]"
  by (simp add: compressed_page_def pick_cat_def run_def history_on_success
      history_handleCompress handleFileChange_def Let_def showToast_def revokePreview_def
      initial_page_def cat_def validTypes_def)

text \<open>
  No run of the page holds a selection and a history entry at once: an upload empties
  the history, and a success clears the selection.
\<close>

lemma selection_or_history_step:
  assumes "selectedFile s = None \<or> compressedHistory s = []"
  shows "selectedFile (step ev s) = None \<or> compressedHistory (step ev s) = []"
proof (cases ev)
  case (FileChange e url)
  then show ?thesis
    by (cases "files e")
       (simp_all add: handleFileChange_def Let_def showToast_def revokePreview_def)
next
  case (Drop dropped url)
  with assms show ?thesis
    by (cases dropped)
       (simp_all add: handleDrop_def handleFileChange_def Let_def showToast_def
          revokePreview_def)
next
  case (Complete r now out)
  with assms show ?thesis
    by (cases out)
       (simp_all add: on_success_def on_error_def Let_def showToast_def revokePreview_def)
qed (use assms in \<open>auto simp add: handleCompress_def Let_def showToast_def clearHistory_def
       toast_timeout_def split: option.splits\<close>)

lemma selection_or_history:
  "selectedFile (run evs initial_page) = None \<or> compressedHistory (run evs initial_page) = []"
proof -
  have "selectedFile s = None \<or> compressedHistory s = [] \<Longrightarrow>
        selectedFile (run evs s) = None \<or> compressedHistory (run evs s) = []" for s
  proof (induction evs arbitrary: s)
    case Nil
    then show ?case by (simp add: run_def)
  next
    case (Cons ev evs)
    have "run (ev # evs) s = run evs (step ev s)" by (simp add: run_def)
    then show ?case
      using Cons.IH [OF selection_or_history_step [OF Cons.prems]] by simp
  qed
  then show ?thesis by (simp add: initial_page_def)
qed

text \<open>What \<open>handleFileChange\<close> does with its first file, case by case.\<close>

lemma handleFileChange_outcomes:
  "(\<forall>f fs. files e = f # fs \<and> file_type f \<in> set validTypes \<and> file_size f \<le> 20 * 1024 * 1024 \<longrightarrow>
      selectedFile (fst (handleFileChange e url s)) = Some f
      \<and> toast (fst (handleFileChange e url s)) = Some (''Image uploaded successfully!'', ''success''))
   \<and> (files e = [] \<longrightarrow>
        toast (fst (handleFileChange e url s)) = Some (''No file selected.'', ''error''))
   \<and> (\<forall>f fs. files e = f # fs \<and> file_type f \<notin> set validTypes \<longrightarrow>
        toast (fst (handleFileChange e url s))
          = Some (''Unsupported file type. Please upload JPG, JPEG, PNG, GIF, or WEBP images.'',
                  ''error''))
   \<and> (\<forall>f fs. files e = f # fs \<and> file_type f \<in> set validTypes \<and> 20 * 1024 * 1024 < file_size f \<longrightarrow>
        toast (fst (handleFileChange e url s)) = Some (''File size should be less than 20MB.'', ''error''))
   \<and> (files e = [] \<or> file_type (hd (files e)) \<notin> set validTypes
          \<or> 20 * 1024 * 1024 < file_size (hd (files e)) \<longrightarrow>
        selectedFile (fst (handleFileChange e url s)) = None
        \<and> compressedHistory (fst (handleFileChange e url s)) = []
        \<and> compressionLevel (fst (handleFileChange e url s)) = 70
        \<and> previewUrl (fst (handleFileChange e url s)) = '''')
   \<and> isCompressing (fst (handleFileChange e url s)) = isCompressing s
   \<and> isRealCompressorLoaded (fst (handleFileChange e url s)) = isRealCompressorLoaded s"
  by (cases "files e")
     (auto simp add: handleFileChange_def Let_def showToast_def revokePreview_def)

lemma handleDrop_Nil: "handleDrop [] url s = s"
  by (simp add: handleDrop_def)

lemma handleDrop_Cons:
  "handleDrop (f # fs) url s = fst (handleFileChange \<lparr>files = [f], target_value = ''''\<rparr> url s)"
  by (simp add: handleDrop_def)

text \<open>
  C1, as the claim states it, fails, on pages that runs of the page reach. On
  \<open>selected_page\<close> (a file chosen, the slider moved to 40) the user picks a 25 MiB PNG:
  the upload is rejected with the size notice, and the selection, the quality parameter
  and the preview reference have lost their prior values. On \<open>compressed_page\<close> (one
  compression done) the same rejected upload empties the history. The handler resets
  all four before it looks at the file.
\<close>

theorem upload_rejected_keeps_state_counterexample:
  "toast (fst (handleFileChange pick_big ''blob:big'' selected_page))
     = Some (''File size should be less than 20MB.'', ''error'')
   \<and> selectedFile (fst (handleFileChange pick_big ''blob:big'' selected_page))
       \<noteq> selectedFile selected_page
   \<and> compressionLevel (fst (handleFileChange pick_big ''blob:big'' selected_page))
       \<noteq> compressionLevel selected_page
   \<and> previewUrl (fst (handleFileChange pick_big ''blob:big'' selected_page))
       \<noteq> previewUrl selected_page
   \<and> toast (fst (handleFileChange pick_big ''blob:big'' compressed_page))
       = Some (''File size should be less than 20MB.'', ''error'')
   \<and> compressedHistory (fst (handleFileChange pick_big ''blob:big'' compressed_page))
       \<noteq> compressedHistory compressed_page"
  by (simp add: selected_page_fields compressed_page_fields compressed_page_history
      pick_big_def handleFileChange_def Let_def showToast_def revokePreview_def big_png_def
      validTypes_def)

text \<open>
  C1, amended. There are two ways to attempt an upload: the file picker, which runs
  \<open>handleFileChange\<close> on the chosen files, and a drop, which runs \<open>handleDrop\<close> on the
  dropped files. On either way, a first file of an allowed type and of at most 20 MiB
  becomes the selection and the success notice is shown; a first file of a type outside
  the list, or of more than 20 MiB, gets an error notice naming that constraint. The
  picker with no file gets the notice that no file is selected. Every rejected attempt
  that shows a notice leaves the page reset: no selection, an empty history, quality 70
  and an empty preview reference, whatever they were before. A drop that carries no
  file is the one attempt that does nothing: no notice, and the page as it was. The
  busy flag and the choice of compressor are as before in every case.
\<close>

theorem upload_contract:
  "(\<forall>f fs. files e = f # fs \<and> file_type f \<in> set validTypes \<and> file_size f \<le> 20 * 1024 * 1024 \<longrightarrow>
      selectedFile (fst (handleFileChange e url s)) = Some f
      \<and> toast (fst (handleFileChange e url s)) = Some (''Image uploaded successfully!'', ''success''))
   \<and> (files e = [] \<longrightarrow>
        toast (fst (handleFileChange e url s)) = Some (''No file selected.'', ''error''))
   \<and> (\<forall>f fs. files e = f # fs \<and> file_type f \<notin> set validTypes \<longrightarrow>
        toast (fst (handleFileChange e url s))
          = Some (''Unsupported file type. Please upload JPG, JPEG, PNG, GIF, or WEBP images.'',
                  ''error''))
   \<and> (\<forall>f fs. files e = f # fs \<and> file_type f \<in> set validTypes \<and> 20 * 1024 * 1024 < file_size f \<longrightarrow>
        toast (fst (handleFileChange e url s)) = Some (''File size should be less than 20MB.'', ''error''))
   \<and> (files e = [] \<or> file_type (hd (files e)) \<notin> set validTypes
          \<or> 20 * 1024 * 1024 < file_size (hd (files e)) \<longrightarrow>
        selectedFile (fst (handleFileChange e url s)) = None
        \<and> compressedHistory (fst (handleFileChange e url s)) = []
        \<and> compressionLevel (fst (handleFileChange e url s)) = 70
        \<and> previewUrl (fst (handleFileChange e url s)) = '''')
   \<and> isCompressing (fst (handleFileChange e url s)) = isCompressing s
   \<and> isRealCompressorLoaded (fst (handleFileChange e url s)) = isRealCompressorLoaded s
   \<and> handleDrop [] url s = s
   \<and> (\<forall>f fs. dropped = f # fs \<and> file_type f \<in> set validTypes \<and> file_size f \<le> 20 * 1024 * 1024 \<longrightarrow>
        selectedFile (handleDrop dropped url s) = Some f
        \<and> toast (handleDrop dropped url s) = Some (''Image uploaded successfully!'', ''success''))
   \<and> (\<forall>f fs. dropped = f # fs \<and> file_type f \<notin> set validTypes \<longrightarrow>
        toast (handleDrop dropped url s)
          = Some (''Unsupported file type. Please upload JPG, JPEG, PNG, GIF, or WEBP images.'',
                  ''error''))
   \<and> (\<forall>f fs. dropped = f # fs \<and> file_type f \<in> set validTypes \<and> 20 * 1024 * 1024 < file_size f \<longrightarrow>
        toast (handleDrop dropped url s) = Some (''File size should be less than 20MB.'', ''error''))
   \<and> (\<forall>f fs. dropped = f # fs
          \<and> (file_type f \<notin> set validTypes \<or> 20 * 1024 * 1024 < file_size f) \<longrightarrow>
        selectedFile (handleDrop dropped url s) = None
        \<and> compressedHistory (handleDrop dropped url s) = []
        \<and> compressionLevel (handleDrop dropped url s) = 70
        \<and> previewUrl (handleDrop dropped url s) = '''')
   \<and> isCompressing (handleDrop dropped url s) = isCompressing s
   \<and> isRealCompressorLoaded (handleDrop dropped url s) = isRealCompressorLoaded s"
proof (cases dropped)
  case Nil
  then show ?thesis
    using handleFileChange_outcomes [of e url s] by (simp add: handleDrop_Nil)
next
  case (Cons f fs)
  then show ?thesis
    using handleFileChange_outcomes [of e url s]
      handleFileChange_outcomes [of "\<lparr>files = [f], target_value = ''''\<rparr>" url s]
    by (simp add: handleDrop_Cons handleDrop_Nil)
qed

theorem upload_contract_witness:
  "selectedFile (fst (handleFileChange pick_cat ''blob:cat'' compressed_page)) = Some cat
   \<and> toast (fst (handleFileChange pick_cat ''blob:cat'' compressed_page))
       = Some (''Image uploaded successfully!'', ''success'')
   \<and> toast (fst (handleFileChange pick_big ''blob:big'' selected_page))
       = Some (''File size should be less than 20MB.'', ''error'')
   \<and> selectedFile (fst (handleFileChange pick_big ''blob:big'' selected_page)) = None
   \<and> compressionLevel (fst (handleFileChange pick_big ''blob:big'' selected_page)) = 70
   \<and> compressedHistory (fst (handleFileChange pick_big ''blob:big'' compressed_page)) = []
   \<and> handleDrop [] ''blob:none'' selected_page = selected_page
   \<and> selectedFile (handleDrop [cat] ''blob:cat'' compressed_page) = Some cat
   \<and> toast (handleDrop [big_png] ''blob:big'' selected_page)
       = Some (''File size should be less than 20MB.'', ''error'')
   \<and> selectedFile (handleDrop [big_png] ''blob:big'' selected_page) = None"
  using upload_contract [of pick_cat "''blob:cat''" compressed_page "[cat]"]
        upload_contract [of pick_big "''blob:big''" selected_page "[big_png]"]
        upload_contract [of pick_big "''blob:big''" compressed_page "[]"]
        upload_contract [of pick_big "''blob:none''" selected_page "[]"]
  by (simp add: pick_cat_def pick_big_def cat_def big_png_def validTypes_def)

section \<open>Compression without a selection\<close>

text \<open>
  C8. A click on the button while nothing is selected shows the error notice and does
  nothing else: the page is the old one with the new toast (and its timer), so the
  history and the busy flag are as before, and no request goes to any compressor.
\<close>

theorem compress_without_selection:
  assumes "selectedFile s = None"
  shows "handleCompress s
           = (s\<lparr>toast := Some (''Please upload an image to compress.'', ''error''),
                toast_timers := toast_timers s + 1\<rparr>, None)
         \<and> compressedHistory (fst (handleCompress s)) = compressedHistory s
         \<and> isCompressing (fst (handleCompress s)) = isCompressing s
         \<and> snd (handleCompress s) = None"
  using assms by (simp add: handleCompress_def showToast_def)

theorem compress_without_selection_witness:
  "selectedFile initial_page = None
   \<and> handleCompress initial_page
       = (initial_page\<lparr>toast := Some (''Please upload an image to compress.'', ''error''),
                       toast_timers := 1\<rparr>, None)"
  using compress_without_selection [of initial_page] by (simp add: initial_page_def)

section \<open>A failed compression\<close>

text \<open>
  C6. When the compressor reports a failure, the page shows an error notice that carries
  the failure's message and clears the busy flag; the selection, its preview reference
  and the history are what they were. This holds for the page as it is when the callback
  runs, and so in particular right after the click that started the compression: the
  selection is then still the file that was sent.
\<close>

theorem compression_failure:
  "toast (complete r now (Failed message) s)
     = Some (''Compression failed: '' @ message @ ''. Please try again.'', ''error'')
   \<and> selectedFile (complete r now (Failed message) s) = selectedFile s
   \<and> previewUrl (complete r now (Failed message) s) = previewUrl s
   \<and> object_urls (complete r now (Failed message) s) = object_urls s
   \<and> \<not> isCompressing (complete r now (Failed message) s)
   \<and> compressedHistory (complete r now (Failed message) s) = compressedHistory s
   \<and> (selectedFile s = Some f \<longrightarrow>
        selectedFile (complete r now (Failed message) (fst (handleCompress s))) = Some f
        \<and> previewUrl (complete r now (Failed message) (fst (handleCompress s))) = previewUrl s
        \<and> compressedHistory (complete r now (Failed message) (fst (handleCompress s)))
            = compressedHistory s
        \<and> isCompressing (fst (handleCompress s))
        \<and> \<not> isCompressing (complete r now (Failed message) (fst (handleCompress s))))"
  by (simp add: on_error_def handleCompress_def showToast_def Let_def)

theorem compression_failure_witness:
  "selectedFile used_page = Some cat
   \<and> selectedFile (complete cat_request 2 (Failed ''out of memory'') (fst (handleCompress used_page)))
       = Some cat
   \<and> toast (complete cat_request 2 (Failed ''out of memory'') (fst (handleCompress used_page)))
       = Some (''Compression failed: out of memory. Please try again.'', ''error'')
   \<and> length (compressedHistory
        (complete cat_request 2 (Failed ''out of memory'') (fst (handleCompress used_page)))) = 1"
  using compression_failure [of cat_request 2 "''out of memory''" "fst (handleCompress used_page)"]
        compression_failure [of cat_request 2 "''out of memory''" used_page cat]
  by (simp add: used_page_def)

section \<open>The history\<close>

text \<open>
  C7. Take any sequence of events without an upload and without a clearing of the
  history. Afterwards the history is the entries of the successful completions among
  them, the newest in front, followed by the history from before, entry for entry as it
  was. So its length has grown by exactly the number of successes, and starting from an
  empty history it holds exactly that many entries. One success puts exactly one entry
  in front. Clearing leaves the history empty, whatever it held.
\<close>

theorem history_newest_first:
  assumes "\<forall>ev \<in> set evs. \<not> replaces_history ev"
  shows "compressedHistory (run evs s) = rev (successes evs) @ compressedHistory s
         \<and> length (compressedHistory (run evs s))
             = length (successes evs) + length (compressedHistory s)
         \<and> (compressedHistory s = [] \<longrightarrow>
              length (compressedHistory (run evs s)) = length (successes evs))
         \<and> compressedHistory (step (Complete r now (Succeeded result)) s)
             = history_entry r now result # compressedHistory s
         \<and> compressedHistory (clearHistory s) = []"
  using history_run [OF assms, of s]
  by (simp add: history_on_success clearHistory_def showToast_fields)

theorem history_newest_first_witness:
  "\<not> replaces_history (Complete cat_request 2 (Succeeded cat_result))
   \<and> \<not> replaces_history Compress
   \<and> \<not> replaces_history (Complete cat_request 3 (Succeeded cat_result))
   \<and> map item_id (compressedHistory
        (run [Complete cat_request 2 (Succeeded cat_result), Compress,
              Complete cat_request 3 (Succeeded cat_result)] used_page)) = [3, 2, 1]
   \<and> compressedHistory (clearHistory used_page) = []
   \<and> compressedHistory (clearHistory initial_page) = []"
  using history_newest_first
          [of "[Complete cat_request 2 (Succeeded cat_result), Compress,
                Complete cat_request 3 (Succeeded cat_result)]" used_page]
        history_newest_first [of "[]" initial_page]
  by (simp add: used_page_def history_entry_def)

section \<open>Derived file names\<close>

lemma split_not_Nil: "split c s \<noteq> []"
  by (induction s) (auto split: list.splits)

lemma split_without_separator: "c \<notin> set s \<Longrightarrow> split c s = [s]"
  by (induction s) auto

lemma split_at_last_separator:
  "c \<notin> set ext \<Longrightarrow> split c (base @ c # ext) = split c base @ [ext]"
proof (induction base)
  case Nil
  then show ?case by (simp add: split_without_separator)
next
  case (Cons x base)
  then show ?case
    by (cases "split c base") (auto simp: split_not_Nil)
qed

lemma join_split: "join [c] (split c s) = s"
proof (induction s)
  case Nil
  show ?case by simp
next
  case (Cons x s)
  obtain p ps where ps: "split c s = p # ps"
    by (cases "split c s") (auto simp: split_not_Nil)
  show ?case
  proof (cases "x = c")
    case True
    with Cons ps show ?thesis by simp
  next
    case False
    with Cons ps show ?thesis by (cases ps) auto
  qed
qed

text \<open>
  A name with a dot: the marker goes in before the last dot, and the rest of the name
  is kept.
\<close>

lemma newFileName_with_extension:
  "CHR ''.'' \<notin> set ext \<Longrightarrow> newFileName (base @ ''.'' @ ext) = base @ ''_ai.'' @ ext"
  using join_split [of "CHR ''.''" base]
  by (simp add: newFileName_def pop_def split_at_last_separator split_not_Nil)

text \<open>A name without a dot: the whole name is taken for the extension.\<close>

lemma newFileName_without_extension:
  "CHR ''.'' \<notin> set name \<Longrightarrow> newFileName name = ''_ai.'' @ name"
  by (simp add: newFileName_def pop_def split_without_separator)

text \<open>The fallback in the success callback is the same code as the stand-in's.\<close>

lemma fileNameToUse_fallback:
  "blob_name result = None \<or> blob_name result = Some '''' \<Longrightarrow>
   fileNameToUse result selected = newFileName (file_name selected)"
  by (auto simp: fileNameToUse_def newFileName_def)

lemma fileNameToUse_named:
  "blob_name result = Some n \<Longrightarrow> n \<noteq> '''' \<Longrightarrow> fileNameToUse result selected = n"
  by (simp add: fileNameToUse_def)

text \<open>
  C3 says that for every file name the output name is the base name, then the marker
  \<open>_ai\<close>, then a dot and the extension, in the stand-in and in the fallback of the
  success callback. Take a file whose name has no dot, \<open>README\<close>. Both copies of the
  naming code put the marker in front and turn the whole name into the extension.
\<close>

theorem name_without_dot:
  "newFileName (file_name readme) = ''_ai.README''
   \<and> fileNameToUse unnamed_result readme = ''_ai.README''"
  by (simp add: readme_def unnamed_result_def newFileName_def fileNameToUse_def pop_def)

section \<open>What the progress timer reports\<close>

lemma resolve_percentage: "resolve globals counter ''percentage'' = globals ''percentage''"
  by (simp add: resolve_def local_names_def constructor_names_def module_names_def)

lemma ticks_reported:
  "(c, Reported v) \<in> set (ticks globals opts n counter) \<Longrightarrow> globals ''percentage'' = Some v"
proof (induction n arbitrary: counter)
  case 0
  then show ?case by simp
next
  case (Suc n)
  then show ?case
    by (auto simp: interval_tick_def Let_def resolve_percentage
             split: if_splits option.splits)
qed

lemma ticks_unbound:
  "globals ''percentage'' = None \<Longrightarrow> progress opts \<Longrightarrow> counter + 10 * n \<le> 100 \<Longrightarrow>
   ticks globals opts n counter
     = map (\<lambda>k. (counter + 10 * Suc k, ReferenceError ''percentage'')) [0..<n]"
proof (induction n arbitrary: counter)
  case 0
  show ?case by simp
next
  case (Suc n)
  have step: "interval_tick globals opts counter = (counter + 10, ReferenceError ''percentage'')"
    using Suc.prems by (simp add: interval_tick_def Let_def resolve_percentage)
  have rest: "ticks globals opts n (counter + 10)
                = map (\<lambda>k. (counter + 10 + 10 * Suc k, ReferenceError ''percentage'')) [0..<n]"
    using Suc.prems by (intro Suc.IH) simp_all
  have "[0..<Suc n] = 0 # map Suc [0..<n]"
    by (simp add: upt_conv_Cons map_Suc_upt del: upt_Suc)
  then show ?case
    using step rest by (simp add: comp_def del: upt_Suc)
qed

text \<open>
  C10. The argument of the progress call is the identifier \<open>percentage\<close>. None of the
  scopes of the stand-in or of the module binds it, so it resolves to whatever the
  global object holds under that name, whatever the counter is. A value that reaches
  the callback is therefore that global's value and not the counter. With no such
  global (the page creates none), each of the runs at counters 10, 20, up to 100 throws
  a \<open>ReferenceError\<close> before the callback is called, and nothing is ever reported.
\<close>

theorem progress_never_reports_counter:
  "''percentage'' \<notin> set local_names \<union> set constructor_names \<union> set module_names
   \<and> resolve globals counter ''percentage'' = globals ''percentage''
   \<and> ((c, Reported v) \<in> set (ticks globals opts n counter) \<longrightarrow> globals ''percentage'' = Some v)
   \<and> (globals ''percentage'' = None \<longrightarrow> (c, Reported v) \<notin> set (ticks globals opts n counter))
   \<and> (globals ''percentage'' = None \<and> progress opts \<and> n \<le> 10 \<longrightarrow>
        ticks globals opts n 0 = map (\<lambda>k. (10 * Suc k, ReferenceError ''percentage'')) [0..<n])"
proof -
  have names: "''percentage'' \<notin> set local_names \<union> set constructor_names \<union> set module_names"
    by (simp add: local_names_def constructor_names_def module_names_def)
  have reported: "(c, Reported v) \<in> set (ticks globals opts n counter) \<longrightarrow>
                  globals ''percentage'' = Some v"
    using ticks_reported by blast
  have unbound: "globals ''percentage'' = None \<and> progress opts \<and> n \<le> 10 \<longrightarrow>
        ticks globals opts n 0 = map (\<lambda>k. (10 * Suc k, ReferenceError ''percentage'')) [0..<n]"
    using ticks_unbound [of globals opts 0 n] by simp
  from names reported unbound show ?thesis
    by (auto simp: resolve_percentage)
qed

theorem progress_never_reports_counter_witness:
  "no_globals ''percentage'' = None
   \<and> progress (request_options cat_request)
   \<and> ticks no_globals (request_options cat_request) 3 0
       = [(10, ReferenceError ''percentage''), (20, ReferenceError ''percentage''),
          (30, ReferenceError ''percentage'')]
   \<and> (10, Reported (Number 10)) \<notin> set (ticks no_globals (request_options cat_request) 3 0)"
  using progress_never_reports_counter
          [of no_globals 0 10 "Number 10" "request_options cat_request" 3]
  by (simp add: no_globals_def cat_request_def numeral_3_eq_3)

section \<open>What sharing does\<close>

text \<open>Where both functions exist, the handler does what its two branches say.\<close>

lemma handleShare_supported:
  assumes "share nav = Some sh" and "canShare nav = Some can"
    and "can [\<lparr>file_name = fileName, file_size = blob_length b, file_type = blob_type b\<rparr>]"
  shows "handleShare nav (Some b) fileName s =
           Inr (showToast
             (case sh \<lparr>share_files = [\<lparr>file_name = fileName, file_size = blob_length b,
                                          file_type = blob_type b\<rparr>],
                        share_title = ''Compressed Image - '' @ fileName,
                        share_text = ''Check out this image I compressed using ImageCompressor.ai!''\<rparr> of
                Resolved \<Rightarrow> ''Image shared successfully!''
              | Rejected name message \<Rightarrow>
                  if name = ''AbortError'' then ''Sharing cancelled.''
                  else ''Failed to share image: '' @ message)
             (case sh \<lparr>share_files = [\<lparr>file_name = fileName, file_size = blob_length b,
                                          file_type = blob_type b\<rparr>],
                        share_title = ''Compressed Image - '' @ fileName,
                        share_text = ''Check out this image I compressed using ImageCompressor.ai!''\<rparr> of
                Resolved \<Rightarrow> ''success''
              | Rejected name message \<Rightarrow> if name = ''AbortError'' then ''info'' else ''error'')
             s)"
  using assms by (simp add: handleShare_def Let_def split: share_result.split)

lemma handleShare_unsupported:
  assumes "share nav = None
           \<or> (canShare nav = Some can
               \<and> \<not> can [\<lparr>file_name = fileName, file_size = blob_length b, file_type = blob_type b\<rparr>])"
  shows "handleShare nav (Some b) fileName s = Inr (showToast unsupported_notice ''info'' s)"
  using assms by (auto simp: handleShare_def Let_def split: option.split)

text \<open>
  C9 says that sharing shows a success, cancellation or failure notice where the
  platform can share files, and the notice that sharing is unsupported where it cannot.
  Take the browser \<open>share_only\<close>, which has \<open>navigator.share\<close> and no
  \<open>navigator.canShare\<close>. It cannot share files. The handler calls the absent
  \<open>canShare\<close>, which throws: the handler ends with a \<open>TypeError\<close> and no notice
  is shown at all.
\<close>

theorem share_without_canShare:
  "handleShare share_only (Some cat_result) ''cat_ai.jpg'' initial_page
     = Inl (TypeError ''navigator.canShare is not a function'')"
  by (simp add: handleShare_def share_only_def Let_def)

section \<open>The size of the stand-in's output\<close>

text \<open>
  C2 says that the stand-in's output is strictly smaller than the original, for every
  file and every quality from 10 to 100. Take a 500-byte PNG and quality 70. Half of
  70 percent of 500 bytes is 175 bytes; the floor of 1024 bytes lifts the output to
  1024 bytes, more than twice the original.
\<close>

theorem standin_output_larger:
  "Compressor (Some dot_png) \<lparr>quality = Some (fl (70 / 100)), progress = True, success = True\<rparr>
     = Some (Succeeded \<lparr>blob_name = Some ''dot_ai.png'', blob_size = 1024,
                        blob_type = ''image/png'', blob_length = 1024\<rparr>)
   \<and> \<not> simulatedCompressedSize (file_size dot_png) (fl (70 / 100)) < file_size dot_png"
proof -
  have "fl (fl (500 * fl (70 / 100)) * (1 / 2)) = 175"
    by code_simp
  then have size: "simulatedCompressedSize 500 (fl (70 / 100)) = 1024"
    by (simp add: simulatedCompressedSize_def)
  have name: "newFileName ''dot.png'' = ''dot_ai.png''"
    using newFileName_with_extension [of "''png''" "''dot''"] by simp
  show ?thesis
    using size name by (simp add: Compressor_def dot_png_def)
qed

section \<open>The rounding error of one operation\<close>

lemma pow2_powi: "pow2 e = 2 powi e"
  by (simp add: pow2_def power_int_def power_one_over inverse_eq_divide)

lemma pow2_pos: "0 < pow2 e"
  by (simp add: pow2_def)

lemma pow2_add: "pow2 (a + b) = pow2 a * pow2 b"
  by (simp add: pow2_powi power_int_add)

lemma pow2_52: "pow2 52 = 2 ^ 52"
  by (simp add: pow2_def)

lemma rne_error: "\<bar>of_int (rne y) - y\<bar> \<le> 1 / 2"
proof -
  have "of_int \<lfloor>y\<rfloor> \<le> y" and "y < of_int \<lfloor>y\<rfloor> + 1"
    by linarith+
  then show ?thesis
    by (auto simp: rne_def Let_def)
qed

lemma ilog2_bounds:
  assumes "0 < x"
  shows "pow2 (ilog2 x) \<le> x" and "x < 2 * pow2 (ilog2 x)"
proof -
  have "pow2 (ilog2 x) \<le> x \<and> x < 2 * pow2 (ilog2 x)"
  proof (cases "1 \<le> x")
    case True
    define m where "m = \<lfloor>x\<rfloor>"
    have m: "0 < m" using True by (simp add: m_def)
    have k: "1 \<le> bitlen m" using m by (simp add: bitlen_alt_def)
    define j where "j = nat (bitlen m - 1)"
    have nat_k: "nat (bitlen m) = Suc j" using k by (simp add: j_def)
    have lo: "2 ^ j \<le> m"
      using bitlen_bounds [OF m] by (simp add: j_def)
    have hi: "m < 2 ^ Suc j"
      using bitlen_bounds [OF m] unfolding nat_k by blast
    have e: "ilog2 x = bitlen m - 1" using True by (simp add: ilog2_def m_def)
    have p: "pow2 (ilog2 x) = 2 ^ j" using k by (simp add: e pow2_def j_def)
    have "(2 :: rat) ^ j \<le> of_int m" using lo by simp
    moreover have "of_int m \<le> x" by (simp add: m_def)
    ultimately have 1: "2 ^ j \<le> x" by linarith
    have "m + 1 \<le> 2 * 2 ^ j" using hi by simp
    then have "(of_int m :: rat) + 1 \<le> 2 * 2 ^ j" by (simp flip: of_int_le_iff [where 'a = rat])
    moreover have "x < of_int m + 1" unfolding m_def by linarith
    ultimately have 2: "x < 2 * 2 ^ j" by linarith
    from 1 2 show ?thesis by (simp add: p)
  next
    case False
    define y where "y = 1 / x"
    have y: "1 < y" using False assms by (simp add: y_def)
    define n where "n = \<lceil>y\<rceil> - 1"
    have "1 < \<lceil>y\<rceil>" using y by (simp add: less_ceiling_iff)
    then have n: "0 < n" by (simp add: n_def)
    have k: "1 \<le> bitlen n" using n by (simp add: bitlen_alt_def)
    define j where "j = nat (bitlen n - 1)"
    have nat_k: "nat (bitlen n) = Suc j" using k by (simp add: j_def)
    have lo: "2 ^ j \<le> n"
      using bitlen_bounds [OF n] by (simp add: j_def)
    have hi: "n < 2 ^ Suc j"
      using bitlen_bounds [OF n] unfolding nat_k by blast
    have e: "ilog2 x = - bitlen n" using False by (simp add: ilog2_def n_def y_def)
    have p: "pow2 (ilog2 x) = 1 / 2 ^ Suc j"
      using k by (simp add: e pow2_def nat_k)
    have "of_int n < y" unfolding n_def by linarith
    moreover have "(2 :: rat) ^ j \<le> of_int n" using lo by simp
    ultimately have 1: "2 ^ j < y" by linarith
    have "y \<le> of_int n + 1" unfolding n_def by linarith
    moreover have "n + 1 \<le> 2 * 2 ^ j" using hi by simp
    then have "(of_int n :: rat) + 1 \<le> 2 * 2 ^ j" by (simp flip: of_int_le_iff [where 'a = rat])
    ultimately have 2: "y \<le> 2 * 2 ^ j" by linarith
    have "1 / (2 * 2 ^ j) \<le> x"
      using 2 assms by (simp add: y_def field_simps)
    moreover have "x < 1 / 2 ^ j"
      using 1 assms by (simp add: y_def field_simps)
    ultimately show ?thesis by (simp add: p)
  qed
  then show "pow2 (ilog2 x) \<le> x" and "x < 2 * pow2 (ilog2 x)" by simp_all
qed

text \<open>Every operation is off by at most the fraction \<open>2 ^ - 53\<close> of its exact result.\<close>

lemma fl_error: "\<bar>fl x - x\<bar> \<le> \<bar>x\<bar> / 2 ^ 53"
proof (cases "x = 0")
  case True
  then show ?thesis by (simp add: fl_def)
next
  case False
  define s where "s = pow2 (ilog2 \<bar>x\<bar> - 52)"
  have s: "0 < s" by (simp add: s_def pow2_pos)
  have "pow2 (ilog2 \<bar>x\<bar>) = s * 2 ^ 52"
    using pow2_add [of "ilog2 \<bar>x\<bar> - 52" 52] by (simp add: s_def pow2_52)
  then have scale: "s * 2 ^ 52 \<le> \<bar>x\<bar>"
    using ilog2_bounds(1) [of "\<bar>x\<bar>"] False by simp
  have "fl x - x = s * (of_int (rne (x / s)) - x / s)"
    using False s by (simp add: fl_def s_def Let_def field_simps)
  then have "\<bar>fl x - x\<bar> = s * \<bar>of_int (rne (x / s)) - x / s\<bar>"
    using s by (simp add: abs_mult)
  also have "\<dots> \<le> s * (1 / 2)"
    using s rne_error [of "x / s"] by (intro mult_left_mono) simp_all
  also have "\<dots> \<le> \<bar>x\<bar> / 2 ^ 53"
    using scale by simp
  finally show ?thesis .
qed

lemma fl_upper:
  assumes "0 \<le> x"
  shows "fl x \<le> x * (1 + 1 / 2 ^ 53)"
proof -
  have "\<bar>fl x - x\<bar> \<le> x / 2 ^ 53"
    using fl_error [of x] assms by simp
  then have "fl x \<le> x + x / 2 ^ 53" by linarith
  then show ?thesis by (simp add: distrib_left)
qed

lemma fl_lower:
  assumes "0 \<le> x"
  shows "x * (1 - 1 / 2 ^ 53) \<le> fl x"
proof -
  have "\<bar>fl x - x\<bar> \<le> x / 2 ^ 53"
    using fl_error [of x] assms by simp
  then have "x - x / 2 ^ 53 \<le> fl x" by linarith
  then show ?thesis by (simp add: right_diff_distrib)
qed

lemma fl_nonneg: "0 \<le> x \<Longrightarrow> 0 \<le> fl x"
proof -
  assume x: "0 \<le> x"
  have "0 \<le> x * (1 - 1 / 2 ^ 53)" using x by (intro mult_nonneg_nonneg) simp_all
  then show ?thesis using fl_lower [OF x] by linarith
qed

section \<open>The stand-in's size against the exact formula\<close>

lemma three_roundings: "(1 + 1 / 2 ^ 53) ^ 3 \<le> 1 + 4 / (2 ^ 53 :: rat)"
  by (simp add: power3_eq_cube)

text \<open>
  The three roundings of \<open>originalSize * quality * 0.5\<close> (the quotient
  \<open>compressionLevel / 100\<close>, then the two products) can only lose against the exact
  value of \<open>originalSize * level / 200\<close>: that value is a multiple of \<open>1 / 200\<close>, and
  the roundings together move the result by less than \<open>1 / 256\<close>, too little to reach
  the next integer.
\<close>

lemma floor_rounded_le_exact:
  assumes "n < 2 ^ 44" and "level \<le> 100"
  shows "\<lfloor>fl (fl (of_nat n * fl (of_nat level / 100)) * (1 / 2))\<rfloor>
           \<le> \<lfloor>of_nat n * (of_nat level / 100) * (1 / 2) :: rat\<rfloor>"
proof -
  define u :: rat where "u = 1 / 2 ^ 53"
  define a :: rat where "a = of_nat n"
  define q' :: rat where "q' = of_nat level / 100"
  define E :: rat where "E = a * q' * (1 / 2)"
  define K :: int where "K = \<lfloor>E\<rfloor>"
  have u: "0 \<le> u" "(1 + u) ^ 3 \<le> 1 + 4 * u"
    using three_roundings by (simp_all add: u_def)
  have a: "0 \<le> a" "a < 2 ^ 44"
    using assms(1) by (simp_all add: a_def)
  have q': "0 \<le> q'" "q' \<le> 1"
    using assms(2) by (simp_all add: q'_def)
  have E0: "0 \<le> E" using a q' by (simp add: E_def)
  have "a * q' \<le> a * 1" using a q' by (intro mult_left_mono) simp_all
  then have E1: "E < 2 ^ 43" using a by (simp add: E_def)
  \<comment> \<open>the exact value is at least \<open>1 / 200\<close> below the next integer\<close>
  define k where "k = n * level"
  have e: "E = of_nat k / of_nat 200"
    by (simp add: E_def a_def q'_def k_def)
  have "K = int (k div 200)"
    unfolding K_def e by (rule floor_divide_of_nat_eq)
  moreover have "(of_nat k :: rat) = of_nat (200 * (k div 200) + k mod 200)"
    by simp
  then have "(of_nat k :: rat) = 200 * of_nat (k div 200) + of_nat (k mod 200)"
    by (simp only: of_nat_add of_nat_mult of_nat_numeral)
  ultimately have frac: "E = of_int K + of_nat (k mod 200) / 200"
    unfolding e by simp
  have "k mod 200 \<le> 199" by simp
  then have "(of_nat (k mod 200) :: rat) \<le> of_nat 199" by (rule of_nat_mono)
  then have gap: "E \<le> of_int K + 199 / 200"
    using frac by simp
  \<comment> \<open>the three roundings\<close>
  define q where "q = fl q'"
  define y where "y = fl (a * q)"
  define F where "F = fl (y * (1 / 2))"
  have q: "0 \<le> q" "q \<le> q' * (1 + u)"
    using fl_nonneg [OF q'(1)] fl_upper [OF q'(1)] by (simp_all add: q_def u_def)
  have aq: "0 \<le> a * q" using a q by simp
  have "a * q \<le> a * (q' * (1 + u))" using a q by (intro mult_left_mono) simp_all
  then have "a * q * (1 + u) \<le> a * (q' * (1 + u)) * (1 + u)"
    using u by (intro mult_right_mono) simp_all
  moreover have "y \<le> a * q * (1 + u)"
    using fl_upper [OF aq] by (simp add: y_def u_def)
  ultimately have y: "y \<le> a * q' * (1 + u) ^ 2"
    by (simp add: power2_eq_square mult.assoc)
  have y0: "0 \<le> y" using fl_nonneg [OF aq] by (simp add: y_def)
  have h0: "0 \<le> y * (1 / 2)" using y0 by simp
  have "F \<le> y * (1 / 2) * (1 + u)"
    using fl_upper [OF h0] by (simp add: F_def u_def)
  also have "\<dots> \<le> a * q' * (1 + u) ^ 2 * (1 / 2) * (1 + u)"
    using y u by (intro mult_right_mono) simp_all
  also have "\<dots> = E * (1 + u) ^ 3"
    by (simp add: E_def power2_eq_square power3_eq_cube)
  also have "\<dots> \<le> E * (1 + 4 * u)"
    using E0 u by (intro mult_left_mono) simp_all
  also have "\<dots> = E + 4 * u * E" by (simp add: algebra_simps)
  also have "\<dots> < E + 1 / 256"
    using E1 by (simp add: u_def)
  finally have "F < of_int K + 1"
    using gap by linarith
  then have "\<lfloor>F\<rfloor> \<le> K" by (simp only: floor_le_iff)
  then show ?thesis
    unfolding F_def y_def q_def K_def E_def a_def q'_def .
qed

lemma simulatedCompressedSize_le:
  assumes "n < 2 ^ 44" and "level \<le> 100"
  shows "simulatedCompressedSize n (fl (of_nat level / 100))
           \<le> nat (max 1024 \<lfloor>of_nat n * (of_nat level / 100) * (1 / 2) :: rat\<rfloor>)"
  using floor_rounded_le_exact [OF assms]
  unfolding simulatedCompressedSize_def by (intro nat_mono max.mono) simp_all

text \<open>Above 1 KiB the stand-in's output is smaller than the original.\<close>

lemma simulatedCompressedSize_less:
  assumes "1024 < n" and "n < 2 ^ 44" and "level \<le> 100"
  shows "simulatedCompressedSize n (fl (of_nat level / 100)) < n"
proof -
  have "(of_nat level :: rat) \<le> 100"
    using assms(3) by simp
  then have "(of_nat n :: rat) * (of_nat level / 100) \<le> of_nat n * 1"
    by (intro mult_left_mono) simp_all
  then have "(of_nat n :: rat) * (of_nat level / 100) * (1 / 2) < of_nat n"
    using assms(1) by simp
  then have "\<lfloor>of_nat n * (of_nat level / 100) * (1 / 2) :: rat\<rfloor> < int n"
    by (simp add: floor_less_iff)
  then have "nat (max 1024 \<lfloor>of_nat n * (of_nat level / 100) * (1 / 2) :: rat\<rfloor>)
               < n"
    using assms(1) by simp
  then show ?thesis
    using simulatedCompressedSize_le [OF assms(2,3)] by simp
qed

text \<open>
  C4. The page has a selection below 16 TiB (every file it accepts is at most 20 MiB),
  the quality is at most 100 and the real compressor was not found. Then a click sends
  the file to the stand-in, which succeeds with a blob of the input's MIME type whose
  size is at most \<open>max(1024, floor(originalSize * quality * 0.5))\<close>, the formula
  taken exactly with \<open>quality = compressionLevel / 100\<close>. For the 2,000,000-byte JPEG
  at quality 70 the stand-in's blob has exactly 700,000 bytes.
\<close>

theorem standin_size_bound:
  assumes "selectedFile s = Some file" and "\<not> isRealCompressorLoaded s"
    and "file_size file < 2 ^ 44" and "compressionLevel s \<le> 100"
  shows "(\<exists>r result.
            snd (handleCompress s) = Some r \<and> \<not> request_real r \<and> request_file r = file
            \<and> Compressor (Some (request_file r)) (request_options r) = Some (Succeeded result)
            \<and> blob_size result
                \<le> nat (max 1024
                     \<lfloor>of_nat (file_size file) * (of_nat (compressionLevel s) / 100) * (1 / 2) :: rat\<rfloor>)
            \<and> blob_length result = blob_size result
            \<and> blob_type result = file_type file)
         \<and> Compressor (Some cat) (request_options cat_request) = Some (Succeeded cat_result)
         \<and> blob_size cat_result = 700000 \<and> file_size cat = 2000000
         \<and> blob_type cat_result = file_type cat"
proof -
  have "fl (fl (2000000 * fl (70 / 100)) * (1 / 2)) = 700000"
    by code_simp
  then have size: "simulatedCompressedSize 2000000 (fl (70 / 100)) = 700000"
    by (simp add: simulatedCompressedSize_def)
  have name: "newFileName ''cat.jpg'' = ''cat_ai.jpg''"
    using newFileName_with_extension [of "''jpg''" "''cat''"] by simp
  have example: "Compressor (Some cat) (request_options cat_request) = Some (Succeeded cat_result)"
    using size name by (simp add: Compressor_def cat_def cat_request_def cat_result_def)
  have general: "\<exists>r result.
            snd (handleCompress s) = Some r \<and> \<not> request_real r \<and> request_file r = file
            \<and> Compressor (Some (request_file r)) (request_options r) = Some (Succeeded result)
            \<and> blob_size result
                \<le> nat (max 1024
                     \<lfloor>of_nat (file_size file) * (of_nat (compressionLevel s) / 100) * (1 / 2) :: rat\<rfloor>)
            \<and> blob_length result = blob_size result
            \<and> blob_type result = file_type file"
    using assms(1,2) simulatedCompressedSize_le [OF assms(3,4)]
    by (simp add: handleCompress_def Compressor_def Let_def)
  from general example show ?thesis
    by (simp add: cat_def cat_result_def)
qed

theorem standin_size_bound_witness:
  "selectedFile wide_page = Some wide \<and> \<not> isRealCompressorLoaded wide_page
   \<and> file_size wide < 2 ^ 44 \<and> compressionLevel wide_page \<le> 100
   \<and> Compressor (Some wide) (request_options (the (snd (handleCompress wide_page))))
       = Some (Succeeded \<lparr>blob_name = Some ''wide_ai.webp'', blob_size = 58367,
                          blob_type = ''image/webp'', blob_length = 58367\<rparr>)
   \<and> nat (max 1024 \<lfloor>of_nat (file_size wide) * (of_nat (compressionLevel wide_page) / 100) * (1 / 2) :: rat\<rfloor>)
       = 58368"
proof -
  have "\<lfloor>fl (fl (204800 * fl (57 / 100)) * (1 / 2))\<rfloor> = 58367"
    by code_simp
  then have size: "simulatedCompressedSize 204800 (fl (57 / 100)) = 58367"
    by (simp add: simulatedCompressedSize_def)
  have name: "newFileName ''wide.webp'' = ''wide_ai.webp''"
    using newFileName_with_extension [of "''webp''" "''wide''"] by simp
  show ?thesis
    using standin_size_bound [of wide_page wide] size name
    by (simp add: wide_page_def wide_def initial_page_def handleCompress_def Compressor_def
        Let_def)
qed

section \<open>The reported percentage against the exact one\<close>

lemma tenths_fixed1:
  assumes "\<not> halfway x \<or> 0 \<le> x"
  shows "tenths (fixed1 x) = nearest_tenth x"
proof (cases "0 \<le> x")
  case True
  then have "0 \<le> x * 10 + 1 / 2" by simp
  then have "0 \<le> \<lfloor>x * 10 + 1 / 2\<rfloor>" by (simp only: zero_le_floor)
  then show ?thesis
    using True by (simp add: tenths_def fixed1_def nearest_tenth_def)
next
  case False
  define z where "z = x * 10 + 1 / 2"
  have nonint: "of_int \<lfloor>z\<rfloor> \<noteq> z"
    using assms False by (simp add: halfway_def z_def)
  have "of_int \<lfloor>z\<rfloor> \<le> z" and "z < of_int \<lfloor>z\<rfloor> + 1"
    by linarith+
  with nonint have "of_int \<lfloor>z\<rfloor> < z" and "z < of_int \<lfloor>z\<rfloor> + 1"
    by (simp_all add: order.strict_iff_order)
  then have "of_int (- \<lfloor>z\<rfloor>) \<le> 1 - z" and "1 - z < of_int (- \<lfloor>z\<rfloor>) + 1"
    by simp_all
  then have flip: "\<lfloor>1 - z\<rfloor> = - \<lfloor>z\<rfloor>"
    by (rule floor_unique)
  have "\<bar>x\<bar> * 10 + 1 / 2 = 1 - z"
    using False by (simp add: z_def)
  moreover have "0 \<le> 1 - z" using False by (simp add: z_def)
  then have "0 \<le> \<lfloor>1 - z\<rfloor>" by (simp only: zero_le_floor)
  ultimately show ?thesis
    using False flip by (simp add: tenths_def fixed1_def nearest_tenth_def z_def)
qed

text \<open>
  A rational with denominator \<open>d\<close> that is not an integer is at least \<open>1 / d\<close> away
  from the integers on both sides; anything nearer to it than that has the same floor
  and is no integer either.
\<close>

lemma floor_stable:
  fixes Q q :: rat
  assumes d: "0 < d" and Q: "Q = of_int N / of_int d" and nonint: "of_int \<lfloor>Q\<rfloor> \<noteq> Q"
    and near: "\<bar>q - Q\<bar> < 1 / of_int d"
  shows "\<lfloor>q\<rfloor> = \<lfloor>Q\<rfloor>" and "of_int \<lfloor>q\<rfloor> \<noteq> q"
proof -
  have fl: "\<lfloor>Q\<rfloor> = N div d"
    unfolding Q by (rule floor_divide_of_int_eq)
  have "(of_int N :: rat) = of_int (d * (N div d) + N mod d)"
    by simp
  then have N: "(of_int N :: rat) = of_int d * of_int (N div d) + of_int (N mod d)"
    by (simp only: of_int_add of_int_mult)
  have dpos: "(0 :: rat) < of_int d" using d by simp
  have split: "Q = of_int \<lfloor>Q\<rfloor> + of_int (N mod d) / of_int d"
    unfolding fl unfolding Q N using dpos by (simp add: field_simps)
  have "N mod d \<noteq> 0"
    using nonint split by auto
  moreover have "0 \<le> N mod d" and "N mod d < d"
    using d by simp_all
  ultimately have "1 \<le> N mod d" and "N mod d \<le> d - 1"
    by simp_all
  then have "(1 :: rat) \<le> of_int (N mod d)" and "(of_int (N mod d) :: rat) \<le> of_int d - 1"
    by (simp_all flip: of_int_diff [where 'a = rat])
  then have "1 / of_int d \<le> of_int (N mod d) / (of_int d :: rat)"
    and "of_int (N mod d) / (of_int d :: rat) \<le> 1 - 1 / of_int d"
    using dpos by (simp_all add: field_simps)
  with split have "of_int \<lfloor>Q\<rfloor> + 1 / of_int d \<le> Q" and "Q \<le> of_int \<lfloor>Q\<rfloor> + 1 - 1 / of_int d"
    by linarith+
  with near have "of_int \<lfloor>Q\<rfloor> < q" and "q < of_int \<lfloor>Q\<rfloor> + 1"
    by linarith+
  then have between: "of_int \<lfloor>Q\<rfloor> \<le> q" "q < of_int \<lfloor>Q\<rfloor> + 1" "of_int \<lfloor>Q\<rfloor> \<noteq> q"
    by simp_all
  from between(1,2) show eq: "\<lfloor>q\<rfloor> = \<lfloor>Q\<rfloor>"
    by (rule floor_unique)
  show "of_int \<lfloor>q\<rfloor> \<noteq> q"
    unfolding eq by (rule between(3))
qed

text \<open>
  The two expressions of the page against the exact percentage, for a ratio
  \<open>R = compressedSize / originalSize\<close>: each is off by at most
  \<open>(300 + 700 * R) / 2 ^ 53\<close>.
\<close>

lemma fl_error_le:
  assumes "\<bar>x\<bar> \<le> a + b * R"
  shows "\<bar>fl x - x\<bar> \<le> a / 9007199254740992 + b * R / 9007199254740992"
proof -
  have "\<bar>fl x - x\<bar> \<le> \<bar>x\<bar> / 9007199254740992"
    using fl_error [of x] by simp
  also have "\<dots> \<le> (a + b * R) / 9007199254740992"
    using assms by (intro divide_right_mono) simp_all
  finally show ?thesis
    by (simp add: add_divide_distrib)
qed

lemma saved_error:
  assumes "0 \<le> R"
  shows "\<bar>fl (100 - fl (fl R * 100)) - 100 * (1 - R)\<bar> \<le> (300 + 700 * R) / 2 ^ 53"
proof -
  define r where "r = fl R"
  define t where "t = fl (r * 100)"
  define p where "p = fl (100 - t)"
  have "\<bar>R\<bar> \<le> 0 + 1 * R" using assms by simp
  then have r: "\<bar>r - R\<bar> \<le> R / 9007199254740992"
    unfolding r_def using fl_error_le [of R 0 1 R] by simp
  have "\<bar>r * 100\<bar> \<le> 0 + 200 * R" using r assms by linarith
  then have t: "\<bar>t - r * 100\<bar> \<le> 200 * R / 9007199254740992"
    unfolding t_def using fl_error_le [of "r * 100" 0 200 R] by simp
  have t2: "\<bar>t - 100 * R\<bar> \<le> 300 * R / 9007199254740992" using r t assms by linarith
  have "\<bar>100 - t\<bar> \<le> 100 + 400 * R" using t2 assms by linarith
  then have p: "\<bar>p - (100 - t)\<bar> \<le> 100 / 9007199254740992 + 400 * R / 9007199254740992"
    unfolding p_def by (rule fl_error_le)
  have "\<bar>p - (100 - 100 * R)\<bar> \<le> 300 / 9007199254740992 + 700 * R / 9007199254740992"
    using p t2 assms by linarith
  then show ?thesis by (simp add: p_def t_def r_def add_divide_distrib right_diff_distrib)
qed

lemma reduction_error:
  assumes "0 \<le> R"
  shows "\<bar>fl (fl (1 - fl R) * 100) - 100 * (1 - R)\<bar> \<le> (300 + 700 * R) / 2 ^ 53"
proof -
  define r where "r = fl R"
  define d where "d = fl (1 - r)"
  define p where "p = fl (d * 100)"
  have "\<bar>R\<bar> \<le> 0 + 1 * R" using assms by simp
  then have r: "\<bar>r - R\<bar> \<le> R / 9007199254740992"
    unfolding r_def using fl_error_le [of R 0 1 R] by simp
  have "\<bar>1 - r\<bar> \<le> 1 + 2 * R" using r assms by linarith
  then have d: "\<bar>d - (1 - r)\<bar> \<le> 1 / 9007199254740992 + 2 * R / 9007199254740992"
    unfolding d_def by (rule fl_error_le)
  have d1: "\<bar>d - (1 - R)\<bar> \<le> 1 / 9007199254740992 + 3 * R / 9007199254740992"
    using r d assms by linarith
  have "\<bar>d * 100\<bar> \<le> 200 + 400 * R" using d1 assms by linarith
  then have p: "\<bar>p - d * 100\<bar> \<le> 200 / 9007199254740992 + 400 * R / 9007199254740992"
    unfolding p_def by (rule fl_error_le)
  have "\<bar>p - (100 - 100 * R)\<bar> \<le> 300 / 9007199254740992 + 700 * R / 9007199254740992"
    using p d1 assms by linarith
  then show ?thesis by (simp add: p_def d_def r_def add_divide_distrib right_diff_distrib)
qed

lemma nearest_tenth_near:
  assumes "\<not> halfway p"
  shows "\<bar>of_int (nearest_tenth p) / 10 - p\<bar> < 1 / 20"
proof -
  define z where "z = p * 10 + 1 / 2"
  have "of_int \<lfloor>z\<rfloor> \<noteq> z"
    using assms by (simp add: halfway_def z_def)
  moreover have "of_int \<lfloor>z\<rfloor> \<le> z" and "z < of_int \<lfloor>z\<rfloor> + 1"
    by linarith+
  ultimately have "of_int \<lfloor>z\<rfloor> < p * 10 + 1 / 2" and "p * 10 + 1 / 2 < of_int \<lfloor>z\<rfloor> + 1"
    by (simp_all add: order.strict_iff_order z_def)
  then have "\<bar>of_int \<lfloor>z\<rfloor> / 10 - p\<bar> < 1 / 20"
    by linarith
  then show ?thesis
    by (simp add: nearest_tenth_def z_def)
qed

text \<open>
  A computed percentage within the error bound of the two expressions is printed as the
  nearest tenth of the exact percentage, unless that lies halfway between two tenths.
  Sizes up to 4 GiB keep the error below the distance \<open>1 / (20 * originalSize)\<close> that
  separates a percentage from the nearest halfway point.
\<close>

lemma printed_nearest:
  assumes pos: "0 < original" and big: "original \<le> 2 ^ 32" "compressed \<le> 2 ^ 32"
    and tie: "\<not> halfway (exact_percent compressed original)"
    and err: "\<bar>p - exact_percent compressed original\<bar>
                \<le> (300 + 700 * (of_nat compressed / of_nat original)) / 2 ^ 53"
  shows "tenths (fixed1 p) = nearest_tenth (exact_percent compressed original)"
proof -
  define Cs :: rat where "Cs = of_nat compressed"
  define Os :: rat where "Os = of_nat original"
  define P where "P = exact_percent compressed original"
  define N where "N = 2000 * (int original - int compressed) + int original"
  define d where "d = 2 * int original"
  have Os: "0 < Os" "Os \<le> 4294967296" using pos big(1) by (simp_all add: Os_def)
  have Cs: "0 \<le> Cs" "Cs \<le> 4294967296" using big(2) by (simp_all add: Cs_def)
  have d: "0 < d" using pos by (simp add: d_def)
  have od: "(of_int d :: rat) = 2 * Os" by (simp add: d_def Os_def)
  have Q: "P * 10 + 1 / 2 = of_int N / of_int d"
    unfolding od using Os(1)
    by (simp add: P_def exact_percent_def N_def Cs_def [symmetric] Os_def [symmetric] field_simps)
  have nonint: "of_int \<lfloor>P * 10 + 1 / 2\<rfloor> \<noteq> P * 10 + 1 / 2"
    using tie by (simp add: halfway_def P_def)
  define K :: rat where "K = 2 ^ 53"
  have K: "0 < K" by (simp add: K_def)
  have "6000 * Os + 14000 * Cs < 9007199254740992"
    using Os Cs by linarith
  then have sizes: "3000 * Os + 7000 * Cs < K / 2"
    by (simp add: K_def)
  have "300 + 700 * (Cs / Os) = (300 * Os + 700 * Cs) / Os"
    using Os(1) by (simp add: field_simps)
  then have "10 * ((300 + 700 * (Cs / Os)) / K) = (3000 * Os + 7000 * Cs) / (Os * K)"
    by simp
  also have "\<dots> < (K / 2) / (Os * K)"
    using sizes Os(1) K by (intro divide_strict_right_mono mult_pos_pos)
  also have "\<dots> = 1 / of_int d"
    using Os(1) K by (simp add: od)
  finally have small: "10 * ((300 + 700 * (Cs / Os)) / 2 ^ 53) < 1 / of_int d"
    by (simp only: K_def)
  have "\<bar>p - P\<bar> \<le> (300 + 700 * (Cs / Os)) / 2 ^ 53"
    using err by (simp only: P_def Cs_def Os_def)
  then have "10 * \<bar>p - P\<bar> \<le> 10 * ((300 + 700 * (Cs / Os)) / 2 ^ 53)"
    by (simp only: mult_le_cancel_left_pos zero_less_numeral)
  moreover have "(p * 10 + 1 / 2) - (P * 10 + 1 / 2) = 10 * (p - P)"
    by (simp add: algebra_simps)
  then have "\<bar>(p * 10 + 1 / 2) - (P * 10 + 1 / 2)\<bar> = 10 * \<bar>p - P\<bar>"
    by (simp only: abs_mult abs_numeral)
  ultimately have near: "\<bar>(p * 10 + 1 / 2) - (P * 10 + 1 / 2)\<bar> < 1 / of_int d"
    using small by linarith
  have same: "\<lfloor>p * 10 + 1 / 2\<rfloor> = \<lfloor>P * 10 + 1 / 2\<rfloor>"
    and no_tie: "of_int \<lfloor>p * 10 + 1 / 2\<rfloor> \<noteq> p * 10 + 1 / 2"
    using floor_stable [OF d Q nonint near] by simp_all
  have "tenths (fixed1 p) = nearest_tenth p"
    using no_tie by (intro tenths_fixed1) (simp add: halfway_def)
  then show ?thesis
    using same by (simp add: nearest_tenth_def P_def)
qed

lemma saved_percent_finite:
  "0 < original \<Longrightarrow>
   saved_percent compressed original
     = Num (fl (100 - fl (fl (of_nat compressed / of_nat original) * 100)))"
  by (simp add: saved_percent_def)

lemma toast_on_success:
  "toast (on_success r now result s)
     = Some (''Image compressed successfully! Saved ''
               @ toFixed1 (saved_percent (blob_size result) (file_size (request_file r))) @ ''%'',
             ''success'')"
  by (simp add: on_success_def Let_def showToast_def revokePreview_def)

text \<open>
  C5, as the claim states it, fails. The exact reduction for 725,000 of 2,000,000 bytes
  is 63.75 percent. The notification computes \<open>100 - (c / o) * 100\<close>, which comes out
  as 63.75 exactly and is printed as 63.8. The history card computes
  \<open>(1 - c / o) * 100\<close>, which comes out a little below 63.75 and is printed as 63.7.
  The two places show different numbers, so they cannot both show the rounded value.
\<close>

theorem percent_displays_differ_counterexample:
  "exact_percent (blob_size cdn_result) (file_size (request_file cdn_request)) = 255 / 4
   \<and> toast (on_success cdn_request 1 cdn_result used_page)
       = Some (''Image compressed successfully! Saved 63.8%'', ''success'')
   \<and> reduction_line (history_entry cdn_request 1 cdn_result) = ''Reduction: 63.7%''"
proof -
  have "fl (100 - fl (fl (725000 / 2000000) * 100)) = 255 / 4"
    by code_simp
  then have saved: "saved_percent 725000 2000000 = Num (255 / 4)"
    by (simp add: saved_percent_def)
  have "fl (fl (1 - fl (725000 / 2000000)) * 100) = 8972014882652159 / 140737488355328"
    by code_simp
  then have listed: "reduction_percent (history_entry cdn_request 1 cdn_result)
                       = Num (8972014882652159 / 140737488355328)"
    by (simp add: reduction_percent_def history_entry_def cdn_request_def cdn_result_def
        cat_request_def cat_def)
  have s1: "show_fixed1 (fixed1 (255 / 4)) = ''63.8''"
    by code_simp
  have s2: "show_fixed1 (fixed1 (8972014882652159 / 140737488355328)) = ''63.7''"
    by code_simp
  have "exact_percent (blob_size cdn_result) (file_size (request_file cdn_request)) = 255 / 4"
    by (simp add: exact_percent_def cdn_request_def cdn_result_def cat_request_def cat_def)
  moreover have "toast (on_success cdn_request 1 cdn_result used_page)
       = Some (''Image compressed successfully! Saved 63.8%'', ''success'')"
    using saved s1
    by (simp add: toast_on_success cdn_request_def cdn_result_def cat_request_def cat_def)
  moreover have "reduction_line (history_entry cdn_request 1 cdn_result) = ''Reduction: 63.7%''"
    using listed s2 by (simp add: reduction_line_def)
  ultimately show ?thesis by simp
qed

text \<open>
  C5, amended. Let the original be non-empty, both sizes at most 4 GiB, and the exact
  reduction \<open>100 * (1 - compressedSize / originalSize)\<close> not exactly halfway between
  two neighbouring one-decimal values. Then the notification and the history card both
  print the one-decimal value nearest to the exact reduction: less than 0.05 away from
  it. (At a halfway point the two places may print either neighbour.)
\<close>

theorem percent_rounded:
  assumes "0 < file_size (request_file r)" and "file_size (request_file r) \<le> 2 ^ 32"
    and "blob_size result \<le> 2 ^ 32"
    and "\<not> halfway (exact_percent (blob_size result) (file_size (request_file r)))"
  shows "\<exists>shown listed.
           toast (on_success r now result s)
             = Some (''Image compressed successfully! Saved '' @ show_fixed1 shown @ ''%'',
                     ''success'')
           \<and> reduction_line (history_entry r now result)
               = ''Reduction: '' @ show_fixed1 listed @ ''%''
           \<and> tenths shown
               = nearest_tenth (exact_percent (blob_size result) (file_size (request_file r)))
           \<and> tenths listed
               = nearest_tenth (exact_percent (blob_size result) (file_size (request_file r)))
           \<and> \<bar>of_int (tenths shown) / 10
                 - exact_percent (blob_size result) (file_size (request_file r))\<bar> < 1 / 20
           \<and> \<bar>of_int (tenths listed) / 10
                 - exact_percent (blob_size result) (file_size (request_file r))\<bar> < 1 / 20"
proof -
  define c where "c = blob_size result"
  define n where "n = file_size (request_file r)"
  define R :: rat where "R = of_nat c / of_nat n"
  define p1 where "p1 = fl (100 - fl (fl R * 100))"
  define p2 where "p2 = fl (fl (1 - fl R) * 100)"
  have n: "0 < n" "n \<le> 2 ^ 32" and c: "c \<le> 2 ^ 32"
    and tie: "\<not> halfway (exact_percent c n)"
    using assms by (simp_all add: c_def n_def)
  have R: "0 \<le> R" by (simp add: R_def)
  have exact: "exact_percent c n = 100 * (1 - R)"
    by (simp add: exact_percent_def R_def)
  have "\<bar>p1 - exact_percent c n\<bar> \<le> (300 + 700 * (of_nat c / of_nat n)) / 2 ^ 53"
    unfolding exact p1_def R_def [symmetric] using R by (rule saved_error)
  then have t1: "tenths (fixed1 p1) = nearest_tenth (exact_percent c n)"
    by (rule printed_nearest [OF n c tie])
  have "\<bar>p2 - exact_percent c n\<bar> \<le> (300 + 700 * (of_nat c / of_nat n)) / 2 ^ 53"
    unfolding exact p2_def R_def [symmetric] using R by (rule reduction_error)
  then have t2: "tenths (fixed1 p2) = nearest_tenth (exact_percent c n)"
    by (rule printed_nearest [OF n c tie])
  have shown: "toast (on_success r now result s)
                 = Some (''Image compressed successfully! Saved '' @ show_fixed1 (fixed1 p1) @ ''%'',
                         ''success'')"
    using n(1) by (simp add: toast_on_success saved_percent_finite p1_def R_def c_def n_def)
  have listed: "reduction_line (history_entry r now result)
                  = ''Reduction: '' @ show_fixed1 (fixed1 p2) @ ''%''"
    using n(1)
    by (simp add: reduction_line_def reduction_percent_def history_entry_def p2_def R_def
        c_def n_def)
  have near: "\<bar>of_int (nearest_tenth (exact_percent c n)) / 10 - exact_percent c n\<bar> < 1 / 20"
    using tie by (rule nearest_tenth_near)
  show ?thesis
    using shown listed t1 t2 near unfolding c_def n_def by metis
qed

theorem percent_rounded_witness:
  "0 < file_size (request_file cat_request) \<and> file_size (request_file cat_request) \<le> 2 ^ 32
   \<and> blob_size cat_result \<le> 2 ^ 32
   \<and> \<not> halfway (exact_percent (blob_size cat_result) (file_size (request_file cat_request)))
   \<and> nearest_tenth (exact_percent (blob_size cat_result) (file_size (request_file cat_request)))
       = 650
   \<and> toast (on_success cat_request 1 cat_result used_page)
       = Some (''Image compressed successfully! Saved 65.0%'', ''success'')
   \<and> reduction_line (history_entry cat_request 1 cat_result) = ''Reduction: 65.0%''"
proof -
  have "fl (100 - fl (fl (700000 / 2000000) * 100)) = 65"
    by code_simp
  then have saved: "saved_percent 700000 2000000 = Num 65"
    by (simp add: saved_percent_def)
  have "fl (fl (1 - fl (700000 / 2000000)) * 100) = 65"
    by code_simp
  then have listed: "reduction_percent (history_entry cat_request 1 cat_result) = Num 65"
    by (simp add: reduction_percent_def history_entry_def cat_request_def cat_result_def cat_def)
  have s: "show_fixed1 (fixed1 65) = ''65.0''"
    by code_simp
  have exact: "exact_percent (blob_size cat_result) (file_size (request_file cat_request)) = 65"
    by (simp add: exact_percent_def cat_request_def cat_result_def cat_def)
  have toast: "toast (on_success cat_request 1 cat_result used_page)
       = Some (''Image compressed successfully! Saved 65.0%'', ''success'')"
    using saved s
    by (simp add: toast_on_success cat_request_def cat_result_def cat_def)
  have line: "reduction_line (history_entry cat_request 1 cat_result) = ''Reduction: 65.0%''"
    using listed s by (simp add: reduction_line_def)
  have sizes: "0 < file_size (request_file cat_request)"
      "file_size (request_file cat_request) \<le> 2 ^ 32" "blob_size cat_result \<le> 2 ^ 32"
    by (simp_all add: cat_request_def cat_result_def cat_def)
  have "\<not> halfway 65" and "nearest_tenth 65 = 650"
    by code_simp+
  then have tie: "\<not> halfway (exact_percent (blob_size cat_result) (file_size (request_file cat_request)))"
    and tenth: "nearest_tenth (exact_percent (blob_size cat_result) (file_size (request_file cat_request)))
                 = 650"
    unfolding exact by simp_all
  from percent_rounded [OF sizes tie, of 1 used_page] sizes tie tenth toast line
  show ?thesis by simp
qed

end
